theory Spec2Isabelle
  imports Complex_Main "HOL-Library.Word"
begin

section \<open>The VEML7700 driver: data model\<close>

text \<open>
  The driver \<^verbatim>\<open>adafruit_veml7700.py\<close> talks to the sensor through register descriptors
  of an external library, reads a monotonic clock and sleeps. The model makes all of
  that explicit in one record: the register fields the driver reads and writes, the
  environment (the values the light register will deliver, the faults the bus will
  raise, the time that passes by itself), a log of the observable events, and the one
  attribute of the driver instance, \<^verbatim>\<open>last_read\<close>.

  Python floats are modelled by rationals: the arithmetic is exact, rounding is not
  modelled. Python integers are \<open>int\<close>. Register fields have the width the descriptor
  declares: \<^verbatim>\<open>RWBits(2, 0x00, 11)\<close> is a \<open>2 word\<close>, \<^verbatim>\<open>RWBits(4, 0x00, 6)\<close> a
  \<open>4 word\<close>, \<^verbatim>\<open>ROUnaryStruct(0x04, "<H")\<close> a \<open>16 word\<close>.
\<close>

datatype exn =
  KeyError | ValueError | IndexError | ZeroDivisionError | OSError | RuntimeError | OtherError

text \<open>Observable events, most recent first in the log.\<close>

datatype event = Sleep rat | ReadLight int

record machine =
  light_gain :: "2 word"
  light_integration_time :: "4 word"
  light_shutdown :: bool
  feed :: "nat \<Rightarrow> 16 word"
  n_reads :: nat
  faults :: "nat \<Rightarrow> exn option"
  n_txn :: nat
  now :: rat
  elapse :: "nat \<Rightarrow> nat"
  n_clock :: nat
  trace :: "event list"
  last_read :: rat

text \<open>
  \<open>feed m k\<close> is the value the ambient-light register delivers at its \<open>k\<close>-th read and
  \<open>n_reads\<close> counts the reads made so far. \<open>faults m k\<close> is the exception the bus raises
  at the \<open>k\<close>-th register access (\<open>None\<close>: the access succeeds) and \<open>n_txn\<close> counts the
  accesses. \<open>now\<close> is the monotonic clock in milliseconds; \<open>elapse m k\<close> is the time in
  microseconds that passes by itself before the \<open>k\<close>-th reading of the clock, and
  \<open>n_clock\<close> counts the clock readings.
\<close>

subsection \<open>Computations that change the machine and may raise\<close>

type_synonym 'a prog = "machine \<Rightarrow> (exn + 'a) \<times> machine"

definition return :: "'a \<Rightarrow> 'a prog" where
  "return x = (\<lambda>m. (Inr x, m))"

definition raise :: "exn \<Rightarrow> 'a prog" where
  "raise e = (\<lambda>m. (Inl e, m))"

definition bind :: "'a prog \<Rightarrow> ('a \<Rightarrow> 'b prog) \<Rightarrow> 'b prog" where
  "bind p f = (\<lambda>m. case p m of (Inl e, m') \<Rightarrow> (Inl e, m') | (Inr x, m') \<Rightarrow> f x m')"

subsection \<open>The register descriptors, the clock and sleep\<close>

text \<open>
  One access to a register field is one bus transaction; it raises what the fault
  script says. A write that raises leaves the field as it was.
\<close>

definition bus_txn :: "unit prog" where
  "bus_txn = (\<lambda>m.
     (case faults m (n_txn m) of None \<Rightarrow> Inr () | Some e \<Rightarrow> Inl e,
      m\<lparr>n_txn := n_txn m + 1\<rparr>))"

definition get_light_gain :: "2 word prog" where
  "get_light_gain = bind bus_txn (\<lambda>_ m. (Inr (light_gain m), m))"

definition set_light_gain :: "2 word \<Rightarrow> unit prog" where
  "set_light_gain v = bind bus_txn (\<lambda>_ m. (Inr (), m\<lparr>light_gain := v\<rparr>))"

definition get_light_integration_time :: "4 word prog" where
  "get_light_integration_time = bind bus_txn (\<lambda>_ m. (Inr (light_integration_time m), m))"

definition set_light_integration_time :: "4 word \<Rightarrow> unit prog" where
  "set_light_integration_time v =
     bind bus_txn (\<lambda>_ m. (Inr (), m\<lparr>light_integration_time := v\<rparr>))"

definition set_light_shutdown :: "bool \<Rightarrow> unit prog" where
  "set_light_shutdown b = bind bus_txn (\<lambda>_ m. (Inr (), m\<lparr>light_shutdown := b\<rparr>))"

text \<open>\<^verbatim>\<open>self.light\<close>: the next value of the feed, as a Python integer in \<open>[0, 65535]\<close>.\<close>

definition get_light :: "int prog" where
  "get_light = bind bus_txn (\<lambda>_ m.
     (Inr (uint (feed m (n_reads m))),
      m\<lparr>n_reads := n_reads m + 1, trace := ReadLight (uint (feed m (n_reads m))) # trace m\<rparr>))"

text \<open>\<^verbatim>\<open>time.monotonic() * 1000\<close>: time has moved on by itself since the last look.\<close>

definition milliseconds :: "rat prog" where
  "milliseconds = (\<lambda>m.
     let t = now m + rat_of_nat (elapse m (n_clock m)) / 1000
     in (Inr t, m\<lparr>now := t, n_clock := n_clock m + 1\<rparr>))"

text \<open>\<^verbatim>\<open>time.sleep(d)\<close>, \<open>d\<close> in seconds; a negative duration raises.\<close>

definition sleep :: "rat \<Rightarrow> unit prog" where
  "sleep d = (\<lambda>m.
     if d < 0 then (Inl ValueError, m)
     else (Inr (), m\<lparr>now := now m + d * 1000, trace := Sleep d # trace m\<rparr>))"

subsection \<open>Python lists and true division\<close>

text \<open>\<^verbatim>\<open>xs[i]\<close>: a negative index counts from the end, out of range raises.\<close>

definition getitem :: "'a list \<Rightarrow> int \<Rightarrow> 'a prog" where
  "getitem xs i =
     (if 0 \<le> i \<and> i < int (length xs) then return (xs ! nat i)
      else if i < 0 \<and> - int (length xs) \<le> i then return (xs ! nat (int (length xs) + i))
      else raise IndexError)"

text \<open>\<^verbatim>\<open>xs.index(x)\<close>: the first position of \<open>x\<close>, or \<^verbatim>\<open>ValueError\<close>.\<close>

fun index_from :: "'a list \<Rightarrow> 'a \<Rightarrow> int \<Rightarrow> int option" where
  "index_from [] x k = None"
| "index_from (y # ys) x k = (if y = x then Some k else index_from ys x (k + 1))"

definition index :: "'a list \<Rightarrow> 'a \<Rightarrow> int prog" where
  "index xs x = (case index_from xs x 0 of None \<Rightarrow> raise ValueError | Some k \<Rightarrow> return k)"

text \<open>\<^verbatim>\<open>a / b\<close> on numbers.\<close>

definition truediv :: "rat \<Rightarrow> rat \<Rightarrow> rat prog" where
  "truediv a b = (if b = 0 then raise ZeroDivisionError else return (a / b))"

section \<open>The driver\<close>

subsection \<open>Class constants (lines 61 to 105)\<close>

definition ALS_GAIN_1 :: "2 word" where "ALS_GAIN_1 = 0x0"

definition ALS_GAIN_2 :: "2 word" where "ALS_GAIN_2 = 0x1"

definition ALS_GAIN_1_8 :: "2 word" where "ALS_GAIN_1_8 = 0x2"

definition ALS_GAIN_1_4 :: "2 word" where "ALS_GAIN_1_4 = 0x3"

definition ALS_25MS :: "4 word" where "ALS_25MS = 0xC"

definition ALS_50MS :: "4 word" where "ALS_50MS = 0x8"

definition ALS_100MS :: "4 word" where "ALS_100MS = 0x0"

definition ALS_200MS :: "4 word" where "ALS_200MS = 0x1"

definition ALS_400MS :: "4 word" where "ALS_400MS = 0x2"

definition ALS_800MS :: "4 word" where "ALS_800MS = 0x3"

definition gain_values :: "2 word \<rightharpoonup> rat" where
  "gain_values = map_of
     [(ALS_GAIN_2, 2), (ALS_GAIN_1, 1), (ALS_GAIN_1_4, 1 / 4), (ALS_GAIN_1_8, 1 / 8)]"

definition gain_settings :: "2 word list" where
  "gain_settings = [ALS_GAIN_1_8, ALS_GAIN_1_4, ALS_GAIN_1, ALS_GAIN_2]"

definition integration_time_values :: "4 word \<rightharpoonup> int" where
  "integration_time_values = map_of
     [(ALS_25MS, 25), (ALS_50MS, 50), (ALS_100MS, 100),
      (ALS_200MS, 200), (ALS_400MS, 400), (ALS_800MS, 800)]"

definition integration_time_settings :: "4 word list" where
  "integration_time_settings =
     [ALS_25MS, ALS_50MS, ALS_100MS, ALS_200MS, ALS_400MS, ALS_800MS]"

subsection \<open>Resolution and lux (lines 244 to 302)\<close>

definition integration_time_value :: "int prog" where
  "integration_time_value =
     bind get_light_integration_time (\<lambda>integration_time.
       case integration_time_values integration_time of
         None \<Rightarrow> raise KeyError
       | Some v \<Rightarrow> return v)"

definition gain_value :: "rat prog" where
  "gain_value =
     bind get_light_gain (\<lambda>gain.
       case gain_values gain of
         None \<Rightarrow> raise KeyError
       | Some v \<Rightarrow> return v)"

text \<open>
  The condition of line 275 is a short-circuit \<^verbatim>\<open>and\<close>: the integration time is only
  looked up when the gain is the maximal one. Line 279 then reads the integration
  time before the gain.
\<close>

definition resolution :: "rat prog" where
  "resolution =
     (let resolution_at_max = 42 / 10000; gain_max = 2; integration_time_max = 800 in
      bind (bind gain_value (\<lambda>g.
              if g = gain_max
              then bind integration_time_value (\<lambda>t. return (t = integration_time_max))
              else return False))
        (\<lambda>at_max.
           if at_max then return resolution_at_max
           else
             bind integration_time_value (\<lambda>t.
             bind (truediv (of_int integration_time_max) (of_int t)) (\<lambda>q1.
             bind gain_value (\<lambda>g.
             bind (truediv gain_max g) (\<lambda>q2.
             return (resolution_at_max * q1 * q2)))))))"

definition correction :: "rat \<Rightarrow> rat" where
  "correction lux =
     (((60135 / 10 ^ 17 * lux - 93924 / 10 ^ 13) * lux + 81488 / 10 ^ 9) * lux
        + 10023 / 10 ^ 4) * lux"

definition compute_lux :: "int \<Rightarrow> bool \<Rightarrow> rat prog" where
  "compute_lux als use_correction =
     bind resolution (\<lambda>r.
       let lux = r * of_int als
       in return (if use_correction then correction lux else lux))"

definition lux :: "rat prog" where
  "lux = bind resolution (\<lambda>r. bind get_light (\<lambda>light. return (r * of_int light)))"

subsection \<open>The timing guard (lines 351 to 374)\<close>

definition read_als_wait :: "int prog" where
  "read_als_wait =
     bind integration_time_value (\<lambda>t.
     let time_to_wait = 2 * t in
     bind milliseconds (\<lambda>ms. \<lambda>m.
       (let time_waited = ms - last_read m in
        bind (if time_waited < of_int time_to_wait
              then sleep ((of_int time_to_wait - time_waited) / 1000)
              else return ())
          (\<lambda>_. bind milliseconds (\<lambda>ms'. \<lambda>m'.
             get_light (m'\<lparr>last_read := ms'\<rparr>)))) m))"

definition wait_autolux :: "rat \<Rightarrow> unit prog" where
  "wait_autolux wait_time =
     bind integration_time_value (\<lambda>t.
     bind (truediv (of_int t) 1000) (\<lambda>minimum_wait_time.
     let actual_wait_time = max minimum_wait_time wait_time
     in sleep actual_wait_time))"

subsection \<open>Automatic ranging (lines 324 to 349)\<close>

text \<open>
  The body of the low-light loop, lines 335 to 341: it returns the new
  \<^verbatim>\<open>gain_index\<close>, \<^verbatim>\<open>it_index\<close> and \<^verbatim>\<open>als\<close>.
\<close>

definition low_step :: "int \<Rightarrow> int \<Rightarrow> (int \<times> int \<times> int) prog" where
  "low_step gain_index it_index =
     bind (if gain_index < 3 then
             (let gain_index' = gain_index + 1 in
              bind (getitem gain_settings gain_index') (\<lambda>g.
              bind (set_light_gain g) (\<lambda>_. return (gain_index', it_index))))
           else if it_index < 5 then
             (let it_index' = it_index + 1 in
              bind (getitem integration_time_settings it_index') (\<lambda>t.
              bind (set_light_integration_time t) (\<lambda>_. return (gain_index, it_index'))))
           else return (gain_index, it_index))
       (\<lambda>(gi, ii). bind read_als_wait (\<lambda>als. return (gi, ii, als)))"

text \<open>
  The low-light loop of line 334. From indices beyond the ends of the two lists the
  Python loop changes nothing and may run forever, so the model is a partial function:
  \<open>None\<close> is the loop that does not return.
\<close>

partial_function (option) low_loop ::
  "int \<Rightarrow> int \<Rightarrow> int \<Rightarrow> machine \<Rightarrow> ((exn + int \<times> int \<times> int) \<times> machine) option" where
  "low_loop gain_index it_index als m =
     (if als \<le> 100 \<and> \<not> (gain_index = 3 \<and> it_index = 5) then
        (case low_step gain_index it_index m of
           (Inl e, m') \<Rightarrow> Some (Inl e, m')
         | (Inr (gain_index', it_index', als'), m') \<Rightarrow> low_loop gain_index' it_index' als' m')
      else Some (Inr (gain_index, it_index, als), m))"

text \<open>The high-light loop of lines 344 to 347; it returns \<^verbatim>\<open>it_index\<close> and \<^verbatim>\<open>als\<close>.\<close>

function high_loop :: "int \<Rightarrow> int \<Rightarrow> (int \<times> int) prog" where
  "high_loop it_index als m =
     (if als > 10000 \<and> it_index > 0 then
        (let it_index' = it_index - 1 in
         case bind (getitem integration_time_settings it_index') (\<lambda>t.
              bind (set_light_integration_time t) (\<lambda>_. read_als_wait)) m of
           (Inl e, m') \<Rightarrow> (Inl e, m')
         | (Inr als', m') \<Rightarrow> high_loop it_index' als' m')
      else (Inr (it_index, als), m))"
  by pat_completeness auto
termination
  by (relation "measure (\<lambda>(it_index, als, m). nat it_index)") auto

text \<open>
  Lines 324 to 347: everything of \<^verbatim>\<open>autolux\<close> before the final conversion. The result
  is the value of the local variables \<^verbatim>\<open>gain_index\<close>, \<^verbatim>\<open>it_index\<close>,
  \<^verbatim>\<open>use_correction\<close> and \<^verbatim>\<open>als\<close> at line 349. Lines 328 and 329 look the current
  settings up in the two lists and drop the positions found.
\<close>

definition autolux_ranging ::
  "machine \<Rightarrow> ((exn + int \<times> int \<times> bool \<times> int) \<times> machine) option" where
  "autolux_ranging m =
     (let gain_index = 0; it_index = 2; use_correction = False in
      case bind (bind get_light_gain (index gain_settings)) (\<lambda>_.
           bind (bind get_light_integration_time (index integration_time_settings)) (\<lambda>_.
           read_als_wait)) m of
        (Inl e, m1) \<Rightarrow> Some (Inl e, m1)
      | (Inr als, m1) \<Rightarrow>
          if als \<le> 100 then
            (case low_loop gain_index it_index als m1 of
               None \<Rightarrow> None
             | Some (Inl e, m2) \<Rightarrow> Some (Inl e, m2)
             | Some (Inr (gi, ii, als'), m2) \<Rightarrow> Some (Inr (gi, ii, use_correction, als'), m2))
          else
            (let use_correction = True in
             case high_loop it_index als m1 of
               (Inl e, m2) \<Rightarrow> Some (Inl e, m2)
             | (Inr (ii, als'), m2) \<Rightarrow> Some (Inr (gain_index, ii, use_correction, als'), m2)))"

definition autolux :: "machine \<Rightarrow> ((exn + rat) \<times> machine) option" where
  "autolux m =
     (case autolux_ranging m of
        None \<Rightarrow> None
      | Some (Inl e, m') \<Rightarrow> Some (Inl e, m')
      | Some (Inr (gain_index, it_index, use_correction, als), m') \<Rightarrow>
          Some (compute_lux als use_correction m'))"

subsection \<open>Construction (lines 220 to 233)\<close>

text \<open>
  The bus device of line 221 is taken as given. \<open>enable_sequence\<close> is the body of the
  \<^verbatim>\<open>try\<close>, \<open>init_attempts k\<close> what is left of the \<^verbatim>\<open>for\<close> loop when \<open>k\<close> rounds
  remain: its \<^verbatim>\<open>else\<close> branch raises. A result \<open>Inl\<close> of \<open>init\<close> is a constructor that
  raised: the caller gets no instance.
\<close>

definition enable_sequence :: "unit prog" where
  "enable_sequence = bind (set_light_gain ALS_GAIN_1_8) (\<lambda>_. set_light_shutdown False)"

fun init_attempts :: "nat \<Rightarrow> unit prog" where
  "init_attempts 0 m = (Inl RuntimeError, m)"
| "init_attempts (Suc k) m =
     (case enable_sequence m of
        (Inr _, m') \<Rightarrow> (Inr (), m')
      | (Inl OSError, m') \<Rightarrow> init_attempts k m'
      | (Inl e, m') \<Rightarrow> (Inl e, m'))"

text \<open>Line 233: \<^verbatim>\<open>self.last_read = self.milliseconds()\<close>.\<close>

definition seed_last_read :: "unit prog" where
  "seed_last_read = bind milliseconds (\<lambda>ms m. (Inr (), m\<lparr>last_read := ms\<rparr>))"

definition init :: "unit prog" where
  "init = bind (init_attempts 3) (\<lambda>_. seed_last_read)"

section \<open>Vocabulary of the properties\<close>

text \<open>The bus raises nothing from now on.\<close>

definition bus_ok :: "machine \<Rightarrow> bool" where
  "bus_ok m \<longleftrightarrow> (\<forall>k \<ge> n_txn m. faults m k = None)"

text \<open>The integration-time field holds one of the six codes of the driver.\<close>

definition it_ok :: "machine \<Rightarrow> bool" where
  "it_ok m \<longleftrightarrow> light_integration_time m \<in> set integration_time_settings"

text \<open>
  What the low-light loop has done when it returns \<open>gi'\<close>, \<open>ii'\<close>, \<open>als'\<close> and \<open>m'\<close>
  from \<open>gi\<close>, \<open>ii\<close>, \<open>als\<close> and \<open>m\<close>; and the same for the high-light loop.
\<close>

definition low_post ::
  "int \<Rightarrow> int \<Rightarrow> int \<Rightarrow> machine \<Rightarrow> int \<Rightarrow> int \<Rightarrow> int \<Rightarrow> machine \<Rightarrow> bool" where
  "low_post gi ii als m gi' ii' als' m' \<longleftrightarrow>
     gi \<le> gi' \<and> gi' \<le> 3 \<and> ii \<le> ii' \<and> ii' \<le> 5
     \<and> (100 < als' \<or> gi' = 3 \<and> ii' = 5)
     \<and> (ii < ii' \<longrightarrow> gi' = 3)
     \<and> int (n_reads m') = int (n_reads m) + (gi' - gi) + (ii' - ii)
     \<and> als' = (if gi' = gi \<and> ii' = ii then als else uint (feed m (n_reads m' - 1)))
     \<and> bus_ok m' \<and> it_ok m' \<and> feed m' = feed m
     \<and> light_gain m' = (if gi' = gi then light_gain m else gain_settings ! nat gi')
     \<and> light_integration_time m' =
         (if ii' = ii then light_integration_time m else integration_time_settings ! nat ii')"

definition high_post :: "int \<Rightarrow> int \<Rightarrow> machine \<Rightarrow> int \<Rightarrow> int \<Rightarrow> machine \<Rightarrow> bool" where
  "high_post ii als m ii' als' m' \<longleftrightarrow>
     0 \<le> ii' \<and> ii' \<le> ii
     \<and> (als' \<le> 10000 \<or> ii' = 0)
     \<and> int (n_reads m') = int (n_reads m) + (ii - ii')
     \<and> als' = (if ii' = ii then als else uint (feed m (n_reads m' - 1)))
     \<and> bus_ok m' \<and> it_ok m' \<and> feed m' = feed m
     \<and> light_gain m' = light_gain m
     \<and> light_integration_time m' =
         (if ii' = ii then light_integration_time m else integration_time_settings ! nat ii')"

text \<open>
  A machine at rest, for concrete runs: the registers hold \<open>g\<close> and \<open>c\<close>, the light
  register will deliver \<open>f\<close>, no fault is scheduled and the clock stands at 0.
\<close>

definition machine_at :: "2 word \<Rightarrow> 4 word \<Rightarrow> (nat \<Rightarrow> 16 word) \<Rightarrow> machine" where
  "machine_at g c f =
     \<lparr>light_gain = g, light_integration_time = c, light_shutdown = False,
      feed = f, n_reads = 0, faults = (\<lambda>_. None), n_txn = 0,
      now = 0, elapse = (\<lambda>_. 0), n_clock = 0, trace = [], last_read = 0\<rparr>"

text \<open>The same machine on a bus whose first \<open>n\<close> register accesses raise \<open>e\<close>.\<close>

definition failing_first :: "nat \<Rightarrow> exn \<Rightarrow> machine \<Rightarrow> machine" where
  "failing_first n e m = m\<lparr>faults := (\<lambda>k. if k < n then Some e else None)\<rparr>"

section \<open>Basic facts\<close>

declare high_loop.simps [simp del]

subsection \<open>Register codes\<close>

lemmas ALS_defs =
  ALS_GAIN_1_def ALS_GAIN_2_def ALS_GAIN_1_8_def ALS_GAIN_1_4_def
  ALS_25MS_def ALS_50MS_def ALS_100MS_def ALS_200MS_def ALS_400MS_def ALS_800MS_def

lemma word2_cases: "(c::2 word) = 0 \<or> c = 1 \<or> c = 2 \<or> c = 3"
proof -
  have "unat c < 4" using unsigned_less[of c, where ?'a = nat] by simp
  then have "unat c = 0 \<or> unat c = 1 \<or> unat c = 2 \<or> unat c = 3" by arith
  then show ?thesis by (auto simp: word_unat_eq_iff)
qed

lemma word4_cases: "(c::4 word) \<in> {0,1,2,3,4,5,6,7,8,9,10,11,12,13,14,15}"
proof -
  have "unat c < 16" using unsigned_less[of c, where ?'a = nat] by simp
  then have "unat c = 0 \<or> unat c = 1 \<or> unat c = 2 \<or> unat c = 3 \<or> unat c = 4 \<or> unat c = 5
      \<or> unat c = 6 \<or> unat c = 7 \<or> unat c = 8 \<or> unat c = 9 \<or> unat c = 10 \<or> unat c = 11
      \<or> unat c = 12 \<or> unat c = 13 \<or> unat c = 14 \<or> unat c = 15" by arith
  then show ?thesis by (auto simp: word_unat_eq_iff)
qed

lemma gain_total: "gain_values c \<noteq> None"
  using word2_cases[of c] by (elim disjE) (simp_all add: gain_values_def ALS_defs)

lemma it_dom: "dom integration_time_values = {0xC, 0x8, 0x0, 0x1, 0x2, 0x3}"
  by (auto simp: integration_time_values_def ALS_defs split: if_splits)

lemma univ4: "(UNIV :: 4 word set) = {0,1,2,3,4,5,6,7,8,9,10,11,12,13,14,15}"
  using word4_cases by blast

lemma card_undefined: "card {c :: 4 word. integration_time_values c = None} = 10"
proof -
  have "{c :: 4 word. integration_time_values c = None} = UNIV - dom integration_time_values"
    by (auto simp: dom_def)
  also have "\<dots> = {4,5,6,7,9,10,11,13,14,15}"
    unfolding it_dom univ4 by auto
  finally show ?thesis by simp
qed

subsection \<open>Primitives on a bus without faults\<close>

lemma bind_apply: "bind p f m = (case p m of (Inl e, m') \<Rightarrow> (Inl e, m') | (Inr x, m') \<Rightarrow> f x m')"
  by (simp add: bind_def)

lemma bind_Inr: "p m = (Inr x, m') \<Longrightarrow> bind p f m = f x m'"
  by (simp add: bind_def)

lemma bind_Inl: "p m = (Inl e, m') \<Longrightarrow> bind p f m = (Inl e, m')"
  by (simp add: bind_def)

lemma return_apply [simp]: "return x m = (Inr x, m)"
  by (simp add: return_def)

lemma raise_apply [simp]: "raise e m = (Inl e, m)"
  by (simp add: raise_def)

lemma bus_ok_upd [simp]:
  "bus_ok (m\<lparr>light_gain := g\<rparr>) = bus_ok m"
  "bus_ok (m\<lparr>light_integration_time := c\<rparr>) = bus_ok m"
  "bus_ok (m\<lparr>light_shutdown := b\<rparr>) = bus_ok m"
  "bus_ok (m\<lparr>feed := f\<rparr>) = bus_ok m"
  "bus_ok (m\<lparr>n_reads := r\<rparr>) = bus_ok m"
  "bus_ok (m\<lparr>now := t\<rparr>) = bus_ok m"
  "bus_ok (m\<lparr>elapse := el\<rparr>) = bus_ok m"
  "bus_ok (m\<lparr>n_clock := nc\<rparr>) = bus_ok m"
  "bus_ok (m\<lparr>trace := tr\<rparr>) = bus_ok m"
  "bus_ok (m\<lparr>last_read := lr\<rparr>) = bus_ok m"
  by (simp_all add: bus_ok_def)

lemma bus_ok_later [simp]: "bus_ok m \<Longrightarrow> n_txn m \<le> k \<Longrightarrow> bus_ok (m\<lparr>n_txn := k\<rparr>)"
  by (simp add: bus_ok_def)

lemma bus_txn_ok: "bus_ok m \<Longrightarrow> bus_txn m = (Inr (), m\<lparr>n_txn := Suc (n_txn m)\<rparr>)"
  by (simp add: bus_txn_def bus_ok_def)

lemma get_light_gain_ok:
  "bus_ok m \<Longrightarrow> get_light_gain m = (Inr (light_gain m), m\<lparr>n_txn := Suc (n_txn m)\<rparr>)"
  by (simp add: get_light_gain_def bind_apply bus_txn_ok)

lemma set_light_gain_ok:
  "bus_ok m \<Longrightarrow> set_light_gain v m = (Inr (), m\<lparr>n_txn := Suc (n_txn m), light_gain := v\<rparr>)"
  by (simp add: set_light_gain_def bind_apply bus_txn_ok)

lemma get_light_integration_time_ok:
  "bus_ok m \<Longrightarrow>
   get_light_integration_time m = (Inr (light_integration_time m), m\<lparr>n_txn := Suc (n_txn m)\<rparr>)"
  by (simp add: get_light_integration_time_def bind_apply bus_txn_ok)

lemma set_light_integration_time_ok:
  "bus_ok m \<Longrightarrow>
   set_light_integration_time v m =
     (Inr (), m\<lparr>n_txn := Suc (n_txn m), light_integration_time := v\<rparr>)"
  by (simp add: set_light_integration_time_def bind_apply bus_txn_ok)

lemma get_light_ok:
  "bus_ok m \<Longrightarrow>
   get_light m =
     (Inr (uint (feed m (n_reads m))),
      m\<lparr>n_txn := Suc (n_txn m), n_reads := Suc (n_reads m),
        trace := ReadLight (uint (feed m (n_reads m))) # trace m\<rparr>)"
  by (simp add: get_light_def bind_apply bus_txn_ok)

lemma integration_time_value_ok:
  "bus_ok m \<Longrightarrow> integration_time_values (light_integration_time m) = Some t \<Longrightarrow>
   integration_time_value m = (Inr t, m\<lparr>n_txn := Suc (n_txn m)\<rparr>)"
  by (simp add: integration_time_value_def bind_apply get_light_integration_time_ok)

lemma integration_time_value_bad:
  "bus_ok m \<Longrightarrow> integration_time_values (light_integration_time m) = None \<Longrightarrow>
   integration_time_value m = (Inl KeyError, m\<lparr>n_txn := Suc (n_txn m)\<rparr>)"
  by (simp add: integration_time_value_def bind_apply get_light_integration_time_ok)

lemma gain_value_ok:
  "bus_ok m \<Longrightarrow> gain_values (light_gain m) = Some g \<Longrightarrow>
   gain_value m = (Inr g, m\<lparr>n_txn := Suc (n_txn m)\<rparr>)"
  by (simp add: gain_value_def bind_apply get_light_gain_ok)

lemma gain_values_pos: "gain_values c = Some g \<Longrightarrow> g \<in> {1 / 8, 1 / 4, 1, 2}"
  by (auto simp: gain_values_def ALS_defs split: if_splits)

lemma integration_time_values_pos:
  "integration_time_values c = Some t \<Longrightarrow> t \<in> {25, 50, 100, 200, 400, 800}"
  by (auto simp: integration_time_values_def ALS_defs split: if_splits)

lemma resolution_ok:
  assumes "bus_ok m" and g: "gain_values (light_gain m) = Some g"
    and t: "integration_time_values (light_integration_time m) = Some t"
  shows "resolution m =
     (Inr (if g = 2 \<and> t = 800 then 42 / 10000 else 42 / 10000 * (800 / of_int t) * (2 / g)),
      m\<lparr>n_txn := n_txn m + (if g = 2 then if t = 800 then 2 else 4 else 3)\<rparr>)"
proof -
  have g0: "g \<noteq> 0" using gain_values_pos[OF g] by auto
  have t0: "t \<noteq> 0" using integration_time_values_pos[OF t] by auto
  show ?thesis
    using assms g0 t0
    by (simp add: resolution_def Let_def bind_apply gain_value_ok integration_time_value_ok truediv_def)
qed

subsection \<open>The timing guard\<close>

lemma read_als_wait_ok:
  assumes "bus_ok m" and t: "integration_time_values (light_integration_time m) = Some t"
  shows "read_als_wait m =
     (let t0 = now m + rat_of_nat (elapse m (n_clock m)) / 1000;
          time_waited = t0 - last_read m;
          t1 = (if time_waited < of_int (2 * t) then last_read m + of_int (2 * t) else t0)
                 + rat_of_nat (elapse m (Suc (n_clock m))) / 1000;
          v = uint (feed m (n_reads m))
      in (Inr v,
          m\<lparr>n_txn := n_txn m + 2, now := t1, n_clock := n_clock m + 2, last_read := t1,
            n_reads := Suc (n_reads m),
            trace := ReadLight v #
              (if time_waited < of_int (2 * t)
               then [Sleep ((of_int (2 * t) - time_waited) / 1000)] else []) @ trace m\<rparr>))"
  using assms
  by (simp add: read_als_wait_def Let_def bind_apply integration_time_value_ok milliseconds_def
      sleep_def get_light_ok diff_divide_distrib add_divide_distrib algebra_simps)

lemma wait_autolux_ok:
  assumes "bus_ok m" and t: "integration_time_values (light_integration_time m) = Some t"
  shows "wait_autolux w m =
     (Inr (), m\<lparr>n_txn := Suc (n_txn m), now := now m + max (of_int t / 1000) w * 1000,
               trace := Sleep (max (of_int t / 1000) w) # trace m\<rparr>)"
proof -
  have "0 < t" using integration_time_values_pos[OF t] by auto
  then have "\<not> max (rat_of_int t / 1000) w < 0" by (simp add: max_def not_less)
  then show ?thesis
    using assms
    by (simp add: wait_autolux_def Let_def bind_apply integration_time_value_ok truediv_def sleep_def)
qed

subsection \<open>The loops of autolux\<close>

lemma it_ok_lookup: "it_ok m \<Longrightarrow> \<exists>t. integration_time_values (light_integration_time m) = Some t"
  by (auto simp: it_ok_def integration_time_settings_def integration_time_values_def ALS_defs)

lemma lookup_it_ok: "integration_time_values (light_integration_time m) = Some t \<Longrightarrow> it_ok m"
  by (auto simp: it_ok_def integration_time_settings_def integration_time_values_def ALS_defs
      split: if_splits)

lemma getitem_gain_settings:
  "0 \<le> i \<Longrightarrow> i < 4 \<Longrightarrow> getitem gain_settings i m = (Inr (gain_settings ! nat i), m)"
  by (simp add: getitem_def gain_settings_def)

lemma getitem_integration_time_settings:
  "0 \<le> i \<Longrightarrow> i < 6 \<Longrightarrow>
   getitem integration_time_settings i m = (Inr (integration_time_settings ! nat i), m)"
  by (simp add: getitem_def integration_time_settings_def)

lemma nth_integration_time_settings_ok:
  "0 \<le> i \<Longrightarrow> i < 6 \<Longrightarrow> integration_time_settings ! nat i \<in> set integration_time_settings"
  by (rule nth_mem) (simp add: integration_time_settings_def)

text \<open>What a guarded read leaves as it was.\<close>

lemma read_als_wait_frame:
  assumes "bus_ok m" and "it_ok m"
  shows "\<exists>m'. read_als_wait m = (Inr (uint (feed m (n_reads m))), m')
     \<and> bus_ok m' \<and> it_ok m'
     \<and> light_gain m' = light_gain m \<and> light_integration_time m' = light_integration_time m
     \<and> feed m' = feed m \<and> n_reads m' = Suc (n_reads m)"
proof -
  from it_ok_lookup[OF assms(2)] obtain t
    where t: "integration_time_values (light_integration_time m) = Some t" ..
  show ?thesis
    using assms
    by (simp add: read_als_wait_ok[OF assms(1) t] Let_def it_ok_def)
qed

lemma low_step_gain:
  assumes "bus_ok m" and "it_ok m" and "0 \<le> gi" and "gi < 3"
  shows "\<exists>m'. low_step gi ii m = (Inr (gi + 1, ii, uint (feed m (n_reads m))), m')
     \<and> bus_ok m' \<and> it_ok m'
     \<and> light_gain m' = gain_settings ! nat (gi + 1)
     \<and> light_integration_time m' = light_integration_time m
     \<and> feed m' = feed m \<and> n_reads m' = Suc (n_reads m)"
proof -
  let ?m1 = "m\<lparr>n_txn := Suc (n_txn m), light_gain := gain_settings ! nat (gi + 1)\<rparr>"
  have ok1: "bus_ok ?m1" "it_ok ?m1" using assms by (simp_all add: it_ok_def)
  from read_als_wait_frame[OF ok1] obtain m' where
    m': "read_als_wait ?m1 = (Inr (uint (feed ?m1 (n_reads ?m1))), m')"
      "bus_ok m'" "it_ok m'" "light_gain m' = light_gain ?m1"
      "light_integration_time m' = light_integration_time ?m1"
      "feed m' = feed ?m1" "n_reads m' = Suc (n_reads ?m1)"
    by blast
  have "low_step gi ii m = (Inr (gi + 1, ii, uint (feed m (n_reads m))), m')"
    using assms m'(1)
    by (simp add: low_step_def Let_def bind_apply getitem_gain_settings set_light_gain_ok)
  with m' show ?thesis by simp
qed

lemma low_step_it:
  assumes "bus_ok m" and "\<not> gi < 3" and "0 \<le> ii" and "ii < 5"
  shows "\<exists>m'. low_step gi ii m = (Inr (gi, ii + 1, uint (feed m (n_reads m))), m')
     \<and> bus_ok m' \<and> it_ok m'
     \<and> light_gain m' = light_gain m
     \<and> light_integration_time m' = integration_time_settings ! nat (ii + 1)
     \<and> feed m' = feed m \<and> n_reads m' = Suc (n_reads m)"
proof -
  let ?m1 = "m\<lparr>n_txn := Suc (n_txn m),
               light_integration_time := integration_time_settings ! nat (ii + 1)\<rparr>"
  have ok1: "bus_ok ?m1" "it_ok ?m1"
    using assms by (simp_all add: it_ok_def nth_integration_time_settings_ok)
  from read_als_wait_frame[OF ok1] obtain m' where
    m': "read_als_wait ?m1 = (Inr (uint (feed ?m1 (n_reads ?m1))), m')"
      "bus_ok m'" "it_ok m'" "light_gain m' = light_gain ?m1"
      "light_integration_time m' = light_integration_time ?m1"
      "feed m' = feed ?m1" "n_reads m' = Suc (n_reads ?m1)"
    by blast
  have "low_step gi ii m = (Inr (gi, ii + 1, uint (feed m (n_reads m))), m')"
    using assms m'(1)
    by (simp add: low_step_def Let_def bind_apply getitem_integration_time_settings
        set_light_integration_time_ok)
  with m' show ?thesis by simp
qed

lemma low_loop_exit:
  "100 < als \<or> gi = 3 \<and> ii = 5 \<Longrightarrow> low_loop gi ii als m = Some (Inr (gi, ii, als), m)"
  by (subst low_loop.simps) auto

lemma low_loop_iterate:
  "als \<le> 100 \<Longrightarrow> \<not> (gi = 3 \<and> ii = 5) \<Longrightarrow> low_step gi ii m = (Inr (gi', ii', als'), m') \<Longrightarrow>
   low_loop gi ii als m = low_loop gi' ii' als' m'"
  by (subst low_loop.simps) simp

lemma low_post_exit:
  "100 < als \<or> gi = 3 \<and> ii = 5 \<Longrightarrow> bus_ok m \<Longrightarrow> it_ok m \<Longrightarrow> gi \<le> 3 \<Longrightarrow> ii \<le> 5 \<Longrightarrow>
   low_post gi ii als m gi ii als m"
  by (simp add: low_post_def)

lemma low_post_gain:
  assumes "low_post (gi + 1) ii (uint (feed m (n_reads m))) m1 gi' ii' als' m'"
    and "light_gain m1 = gain_settings ! nat (gi + 1)"
    and "light_integration_time m1 = light_integration_time m"
    and "feed m1 = feed m" and "n_reads m1 = Suc (n_reads m)"
  shows "low_post gi ii als m gi' ii' als' m'"
proof -
  have n: "n_reads m' - 1 = n_reads m" if "gi' = gi + 1" "ii' = ii"
    using assms that by (auto simp: low_post_def)
  show ?thesis
    using assms n unfolding low_post_def by (auto split: if_splits)
qed

lemma low_post_it:
  assumes "low_post 3 (ii + 1) (uint (feed m (n_reads m))) m1 gi' ii' als' m'"
    and "light_gain m1 = light_gain m"
    and "light_integration_time m1 = integration_time_settings ! nat (ii + 1)"
    and "feed m1 = feed m" and "n_reads m1 = Suc (n_reads m)"
  shows "low_post 3 ii als m gi' ii' als' m'"
proof -
  have n: "n_reads m' - 1 = n_reads m" if "gi' = 3" "ii' = ii + 1"
    using assms that by (auto simp: low_post_def)
  show ?thesis
    using assms n unfolding low_post_def by (auto split: if_splits)
qed

lemma low_loop_run:
  assumes "bus_ok m" and "it_ok m" and "0 \<le> gi" and "gi \<le> 3" and "0 \<le> ii" and "ii \<le> 5"
  shows "\<exists>gi' ii' als' m'. low_loop gi ii als m = Some (Inr (gi', ii', als'), m')
     \<and> low_post gi ii als m gi' ii' als' m'"
  using assms
proof (induction "nat (8 - gi - ii)" arbitrary: gi ii als m rule: less_induct)
  case less
  show ?case
  proof (cases "als \<le> 100 \<and> \<not> (gi = 3 \<and> ii = 5)")
    case False
    then have stop: "100 < als \<or> gi = 3 \<and> ii = 5" by auto
    from low_loop_exit[OF stop] low_post_exit[OF stop less.prems(1,2,4,6)]
    show ?thesis by blast
  next
    case run: True
    show ?thesis
    proof (cases "gi < 3")
      case True
      from low_step_gain[OF less.prems(1,2,3) True, of ii] obtain m1 where
        s: "low_step gi ii m = (Inr (gi + 1, ii, uint (feed m (n_reads m))), m1)"
        and m1: "bus_ok m1" "it_ok m1" "light_gain m1 = gain_settings ! nat (gi + 1)"
          "light_integration_time m1 = light_integration_time m"
          "feed m1 = feed m" "n_reads m1 = Suc (n_reads m)"
        by blast
      have u: "low_loop gi ii als m = low_loop (gi + 1) ii (uint (feed m (n_reads m))) m1"
        using run s by (intro low_loop_iterate) simp_all
      have d: "nat (8 - (gi + 1) - ii) < nat (8 - gi - ii)"
        using less.prems True by simp
      have b: "0 \<le> gi + 1" "gi + 1 \<le> 3" using less.prems True by simp_all
      from less.hyps[OF d m1(1,2) b less.prems(5,6), of "uint (feed m (n_reads m))"]
      obtain gi' ii' als' m' where
        r: "low_loop (gi + 1) ii (uint (feed m (n_reads m))) m1 = Some (Inr (gi', ii', als'), m')"
        and p: "low_post (gi + 1) ii (uint (feed m (n_reads m))) m1 gi' ii' als' m'"
        by blast
      from u r low_post_gain[OF p m1(3-6)] show ?thesis by auto
    next
      case False
      with less.prems run have g3: "gi = 3" and i5: "ii < 5" by auto
      from low_step_it[OF less.prems(1) False less.prems(5) i5] obtain m1 where
        s: "low_step gi ii m = (Inr (gi, ii + 1, uint (feed m (n_reads m))), m1)"
        and m1: "bus_ok m1" "it_ok m1" "light_gain m1 = light_gain m"
          "light_integration_time m1 = integration_time_settings ! nat (ii + 1)"
          "feed m1 = feed m" "n_reads m1 = Suc (n_reads m)"
        by blast
      have u: "low_loop gi ii als m = low_loop gi (ii + 1) (uint (feed m (n_reads m))) m1"
        using run s by (intro low_loop_iterate) simp_all
      have d: "nat (8 - gi - (ii + 1)) < nat (8 - gi - ii)"
        using less.prems i5 by simp
      have b: "0 \<le> ii + 1" "ii + 1 \<le> 5" using less.prems i5 by simp_all
      from less.hyps[OF d m1(1,2) less.prems(3,4) b, of "uint (feed m (n_reads m))"]
      obtain gi' ii' als' m' where
        r: "low_loop gi (ii + 1) (uint (feed m (n_reads m))) m1 = Some (Inr (gi', ii', als'), m')"
        and p: "low_post gi (ii + 1) (uint (feed m (n_reads m))) m1 gi' ii' als' m'"
        by blast
      from u r low_post_it[OF p[unfolded g3] m1(3-6)] g3 show ?thesis by auto
    qed
  qed
qed

lemma high_body:
  assumes "bus_ok m" and "0 < ii" and "ii \<le> 5"
  shows "\<exists>m'. bind (getitem integration_time_settings (ii - 1)) (\<lambda>t.
               bind (set_light_integration_time t) (\<lambda>_. read_als_wait)) m
           = (Inr (uint (feed m (n_reads m))), m')
     \<and> bus_ok m' \<and> it_ok m'
     \<and> light_gain m' = light_gain m
     \<and> light_integration_time m' = integration_time_settings ! nat (ii - 1)
     \<and> feed m' = feed m \<and> n_reads m' = Suc (n_reads m)"
proof -
  let ?m1 = "m\<lparr>n_txn := Suc (n_txn m),
               light_integration_time := integration_time_settings ! nat (ii - 1)\<rparr>"
  have ok1: "bus_ok ?m1" "it_ok ?m1"
    using assms by (simp_all add: it_ok_def nth_integration_time_settings_ok)
  from read_als_wait_frame[OF ok1] obtain m' where
    m': "read_als_wait ?m1 = (Inr (uint (feed ?m1 (n_reads ?m1))), m')"
      "bus_ok m'" "it_ok m'" "light_gain m' = light_gain ?m1"
      "light_integration_time m' = light_integration_time ?m1"
      "feed m' = feed ?m1" "n_reads m' = Suc (n_reads ?m1)"
    by blast
  have "bind (getitem integration_time_settings (ii - 1)) (\<lambda>t.
          bind (set_light_integration_time t) (\<lambda>_. read_als_wait)) m
        = (Inr (uint (feed m (n_reads m))), m')"
    using assms m'(1)
    by (simp add: bind_apply getitem_integration_time_settings set_light_integration_time_ok)
  with m' show ?thesis by simp
qed

lemma high_loop_exit:
  "als \<le> 10000 \<or> ii \<le> 0 \<Longrightarrow> high_loop ii als m = (Inr (ii, als), m)"
  by (subst high_loop.simps) auto

lemma high_loop_iterate:
  "10000 < als \<Longrightarrow> 0 < ii \<Longrightarrow>
   bind (getitem integration_time_settings (ii - 1)) (\<lambda>t.
     bind (set_light_integration_time t) (\<lambda>_. read_als_wait)) m = (Inr als', m') \<Longrightarrow>
   high_loop ii als m = high_loop (ii - 1) als' m'"
  by (subst high_loop.simps) (simp add: Let_def)

lemma high_post_exit:
  "als \<le> 10000 \<or> ii = 0 \<Longrightarrow> bus_ok m \<Longrightarrow> it_ok m \<Longrightarrow> 0 \<le> ii \<Longrightarrow>
   high_post ii als m ii als m"
  by (simp add: high_post_def)

lemma high_post_step:
  assumes "high_post (ii - 1) (uint (feed m (n_reads m))) m1 ii' als' m'"
    and "light_gain m1 = light_gain m"
    and "light_integration_time m1 = integration_time_settings ! nat (ii - 1)"
    and "feed m1 = feed m" and "n_reads m1 = Suc (n_reads m)"
  shows "high_post ii als m ii' als' m'"
proof -
  have n: "n_reads m' - 1 = n_reads m" if "ii' = ii - 1"
    using assms that by (auto simp: high_post_def)
  show ?thesis
    using assms n unfolding high_post_def by (auto split: if_splits)
qed

lemma high_loop_run:
  assumes "bus_ok m" and "it_ok m" and "0 \<le> ii" and "ii \<le> 5"
  shows "\<exists>ii' als' m'. high_loop ii als m = (Inr (ii', als'), m')
     \<and> high_post ii als m ii' als' m'"
  using assms
proof (induction "nat ii" arbitrary: ii als m rule: less_induct)
  case less
  show ?case
  proof (cases "10000 < als \<and> 0 < ii")
    case False
    then have stop: "als \<le> 10000 \<or> ii = 0" using less.prems by auto
    then have stop': "als \<le> 10000 \<or> ii \<le> 0" by auto
    from high_loop_exit[OF stop'] high_post_exit[OF stop less.prems(1,2,3)]
    show ?thesis by blast
  next
    case True
    then have a: "10000 < als" and i: "0 < ii" by simp_all
    from high_body[OF less.prems(1) i less.prems(4)] obtain m1 where
      s: "bind (getitem integration_time_settings (ii - 1)) (\<lambda>t.
            bind (set_light_integration_time t) (\<lambda>_. read_als_wait)) m
          = (Inr (uint (feed m (n_reads m))), m1)"
      and m1: "bus_ok m1" "it_ok m1" "light_gain m1 = light_gain m"
        "light_integration_time m1 = integration_time_settings ! nat (ii - 1)"
        "feed m1 = feed m" "n_reads m1 = Suc (n_reads m)"
      by blast
    have u: "high_loop ii als m = high_loop (ii - 1) (uint (feed m (n_reads m))) m1"
      using a i s by (rule high_loop_iterate)
    have d: "nat (ii - 1) < nat ii" using i by simp
    have b: "0 \<le> ii - 1" "ii - 1 \<le> 5" using less.prems i by simp_all
    from less.hyps[OF d m1(1,2) b, of "uint (feed m (n_reads m))"]
    obtain ii' als' m' where
      r: "high_loop (ii - 1) (uint (feed m (n_reads m))) m1 = (Inr (ii', als'), m')"
      and p: "high_post (ii - 1) (uint (feed m (n_reads m))) m1 ii' als' m'"
      by blast
    from u r high_post_step[OF p m1(3-6)] show ?thesis by auto
  qed
qed

lemma index_from_None: "index_from xs x k = None \<longleftrightarrow> x \<notin> set xs"
  by (induction xs arbitrary: k) auto

lemma index_found: "x \<in> set xs \<Longrightarrow> \<exists>k. index xs x m = (Inr k, m)"
  using index_from_None[of xs x 0] by (cases "index_from xs x 0") (auto simp: index_def)

lemma index_missing: "x \<notin> set xs \<Longrightarrow> index xs x m = (Inl ValueError, m)"
  using index_from_None[of xs x 0] by (simp add: index_def)

lemma gain_settings_all: "c \<in> set gain_settings"
  using word2_cases[of c] by (auto simp: gain_settings_def ALS_defs)

lemma autolux_first_read:
  assumes "bus_ok m" and "it_ok m"
  shows "\<exists>m'. bind (bind get_light_gain (index gain_settings)) (\<lambda>_.
               bind (bind get_light_integration_time (index integration_time_settings)) (\<lambda>_.
               read_als_wait)) m
           = (Inr (uint (feed m (n_reads m))), m')
     \<and> bus_ok m' \<and> it_ok m'
     \<and> light_gain m' = light_gain m
     \<and> light_integration_time m' = light_integration_time m
     \<and> feed m' = feed m \<and> n_reads m' = Suc (n_reads m)"
proof -
  let ?m1 = "m\<lparr>n_txn := Suc (n_txn m)\<rparr>"
  let ?m2 = "m\<lparr>n_txn := Suc (Suc (n_txn m))\<rparr>"
  from index_found[OF gain_settings_all] obtain k1 where
    k1: "index gain_settings (light_gain m) ?m1 = (Inr k1, ?m1)" by blast
  from assms(2) have "light_integration_time m \<in> set integration_time_settings"
    by (simp add: it_ok_def)
  from index_found[OF this] obtain k2 where
    k2: "index integration_time_settings (light_integration_time m) ?m2 = (Inr k2, ?m2)"
    by blast
  have ok2: "bus_ok ?m2" "it_ok ?m2" using assms by (simp_all add: it_ok_def)
  from read_als_wait_frame[OF ok2] obtain m' where
    m': "read_als_wait ?m2 = (Inr (uint (feed ?m2 (n_reads ?m2))), m')"
      "bus_ok m'" "it_ok m'" "light_gain m' = light_gain ?m2"
      "light_integration_time m' = light_integration_time ?m2"
      "feed m' = feed ?m2" "n_reads m' = Suc (n_reads ?m2)"
    by blast
  have "bind (bind get_light_gain (index gain_settings)) (\<lambda>_.
          bind (bind get_light_integration_time (index integration_time_settings)) (\<lambda>_.
          read_als_wait)) m = (Inr (uint (feed m (n_reads m))), m')"
    using assms k1 k2 m'(1)
    by (simp add: bind_apply get_light_gain_ok get_light_integration_time_ok)
  with m' show ?thesis by simp
qed

subsection \<open>Concrete machines and the two tables\<close>

lemma machine_at_simps [simp]:
  "light_gain (machine_at g c f) = g"
  "light_integration_time (machine_at g c f) = c"
  "light_shutdown (machine_at g c f) = False"
  "feed (machine_at g c f) = f"
  "n_reads (machine_at g c f) = 0"
  "faults (machine_at g c f) = (\<lambda>_. None)"
  "n_txn (machine_at g c f) = 0"
  "now (machine_at g c f) = 0"
  "elapse (machine_at g c f) = (\<lambda>_. 0)"
  "n_clock (machine_at g c f) = 0"
  "trace (machine_at g c f) = []"
  "last_read (machine_at g c f) = 0"
  by (simp_all add: machine_at_def)

lemma bus_ok_machine_at [simp]: "bus_ok (machine_at g c f)"
  by (simp add: bus_ok_def)

lemma gain_values_at:
  "gain_values ALS_GAIN_1_8 = Some (1 / 8)" "gain_values ALS_GAIN_1_4 = Some (1 / 4)"
  "gain_values ALS_GAIN_1 = Some 1" "gain_values ALS_GAIN_2 = Some 2"
  by (simp_all add: gain_values_def ALS_defs)

lemma integration_time_values_at:
  "integration_time_values ALS_25MS = Some 25" "integration_time_values ALS_50MS = Some 50"
  "integration_time_values ALS_100MS = Some 100" "integration_time_values ALS_200MS = Some 200"
  "integration_time_values ALS_400MS = Some 400" "integration_time_values ALS_800MS = Some 800"
  by (simp_all add: integration_time_values_def ALS_defs)

lemma ran_gain_values: "ran gain_values = {1 / 8, 1 / 4, 1, 2}"
proof
  show "ran gain_values \<subseteq> {1 / 8, 1 / 4, 1, 2}"
  proof
    fix g assume "g \<in> ran gain_values"
    then obtain c where "gain_values c = Some g" unfolding ran_def by blast
    then show "g \<in> {1 / 8, 1 / 4, 1, 2}" by (rule gain_values_pos)
  qed
  show "{1 / 8, 1 / 4, 1, 2} \<subseteq> ran gain_values"
    by (intro insert_subsetI empty_subsetI ranI) (rule gain_values_at)+
qed

lemma ran_integration_time_values: "ran integration_time_values = {25, 50, 100, 200, 400, 800}"
proof
  show "ran integration_time_values \<subseteq> {25, 50, 100, 200, 400, 800}"
  proof
    fix t assume "t \<in> ran integration_time_values"
    then obtain c where "integration_time_values c = Some t" unfolding ran_def by blast
    then show "t \<in> {25, 50, 100, 200, 400, 800}" by (rule integration_time_values_pos)
  qed
  show "{25, 50, 100, 200, 400, 800} \<subseteq> ran integration_time_values"
    by (intro insert_subsetI empty_subsetI ranI) (rule integration_time_values_at)+
qed

subsection \<open>Construction\<close>

lemma init_attempts_3:
  "init_attempts 3 m =
     (case enable_sequence m of
        (Inr _, m1) \<Rightarrow> (Inr (), m1)
      | (Inl OSError, m1) \<Rightarrow>
          (case enable_sequence m1 of
             (Inr _, m2) \<Rightarrow> (Inr (), m2)
           | (Inl OSError, m2) \<Rightarrow>
               (case enable_sequence m2 of
                  (Inr _, m3) \<Rightarrow> (Inr (), m3)
                | (Inl OSError, m3) \<Rightarrow> (Inl RuntimeError, m3)
                | (Inl e, m3) \<Rightarrow> (Inl e, m3))
           | (Inl e, m2) \<Rightarrow> (Inl e, m2))
      | (Inl e, m1) \<Rightarrow> (Inl e, m1))"
  by (simp add: numeral_3_eq_3 split: prod.splits sum.splits exn.splits)

lemma init_apply:
  "init m = (case init_attempts 3 m of (Inl e, m') \<Rightarrow> (Inl e, m') | (Inr _, m') \<Rightarrow> seed_last_read m')"
  by (simp add: init_def bind_apply)

lemma seed_last_read_effect:
  "fst (seed_last_read m) = Inr ()"
  "last_read (snd (seed_last_read m)) = now (snd (seed_last_read m))"
  "now m \<le> now (snd (seed_last_read m))"
  "n_txn (snd (seed_last_read m)) = n_txn m"
  "light_gain (snd (seed_last_read m)) = light_gain m"
  "light_shutdown (snd (seed_last_read m)) = light_shutdown m"
  by (simp_all add: seed_last_read_def bind_apply milliseconds_def Let_def)

lemma seed_last_read_run:
  "seed_last_read m =
     (Inr (), m\<lparr>now := now m + rat_of_nat (elapse m (n_clock m)) / 1000,
                n_clock := Suc (n_clock m),
                last_read := now m + rat_of_nat (elapse m (n_clock m)) / 1000\<rparr>)"
  by (simp add: seed_last_read_def bind_apply milliseconds_def Let_def)

lemma seed_last_read_later: "now m \<le> last_read (snd (seed_last_read m))"
  by (simp add: seed_last_read_run)

lemma enable_sequence_ok:
  "enable_sequence m = (Inr u, m') \<Longrightarrow>
   light_gain m' = ALS_GAIN_1_8 \<and> \<not> light_shutdown m' \<and> n_txn m' = n_txn m + 2"
  by (auto simp: enable_sequence_def set_light_gain_def set_light_shutdown_def bind_apply
      bus_txn_def split: option.splits)

lemma enable_sequence_run:
  "enable_sequence m =
     (case faults m (n_txn m) of
        Some e \<Rightarrow> (Inl e, m\<lparr>n_txn := Suc (n_txn m)\<rparr>)
      | None \<Rightarrow>
          (case faults m (Suc (n_txn m)) of
             Some e \<Rightarrow> (Inl e, m\<lparr>n_txn := Suc (Suc (n_txn m)), light_gain := ALS_GAIN_1_8\<rparr>)
           | None \<Rightarrow>
               (Inr (), m\<lparr>n_txn := Suc (Suc (n_txn m)), light_gain := ALS_GAIN_1_8,
                          light_shutdown := False\<rparr>)))"
  by (simp add: enable_sequence_def set_light_gain_def set_light_shutdown_def bind_apply
      bus_txn_def split: option.splits)

subsection \<open>What a returned value says about the integration-time field\<close>

lemma it_ok_dom: "it_ok m \<longleftrightarrow> light_integration_time m \<in> dom integration_time_values"
  unfolding it_ok_def it_dom by (simp add: integration_time_settings_def ALS_defs)

lemma integration_time_value_Inr:
  "integration_time_value m = (Inr t, m') \<Longrightarrow>
   integration_time_values (light_integration_time m) = Some t \<and> m' = m\<lparr>n_txn := Suc (n_txn m)\<rparr>"
  by (auto simp: integration_time_value_def get_light_integration_time_def bind_apply bus_txn_def
      split: option.splits)

lemma integration_time_value_it_ok: "integration_time_value m = (Inr t, m') \<Longrightarrow> it_ok m"
  by (auto dest!: integration_time_value_Inr intro: lookup_it_ok)

lemma gain_value_frame: "gain_value m = (r, m') \<Longrightarrow> m' = m\<lparr>n_txn := Suc (n_txn m)\<rparr>"
  by (auto simp: gain_value_def get_light_gain_def bind_apply bus_txn_def
      split: option.splits)

lemma it_ok_n_txn [simp]: "it_ok (m\<lparr>n_txn := k\<rparr>) = it_ok m"
  by (simp add: it_ok_def)

lemma resolution_it_ok:
  assumes "resolution m = (Inr r, m')"
  shows "it_ok m"
proof -
  obtain x m1 where g: "gain_value m = (x, m1)" by (cases "gain_value m")
  from gain_value_frame[OF g] have m1: "it_ok m1 = it_ok m" by simp
  show ?thesis
  proof (cases x)
    case (Inl e)
    with assms g show ?thesis by (simp add: resolution_def Let_def bind_apply)
  next
    case (Inr gv)
    show ?thesis
    proof (cases "gv = 2")
      case True
      obtain y m2 where t: "integration_time_value m1 = (y, m2)"
        by (cases "integration_time_value m1")
      show ?thesis
      proof (cases y)
        case (Inl e)
        with assms g Inr True t show ?thesis by (simp add: resolution_def Let_def bind_apply)
      next
        case (Inr tv)
        with t have "it_ok m1" by (auto intro: integration_time_value_it_ok)
        with m1 show ?thesis by simp
      qed
    next
      case False
      obtain y m2 where t: "integration_time_value m1 = (y, m2)"
        by (cases "integration_time_value m1")
      show ?thesis
      proof (cases y)
        case (Inl e)
        with assms g Inr False t show ?thesis by (simp add: resolution_def Let_def bind_apply)
      next
        case (Inr tv)
        with t have "it_ok m1" by (auto intro: integration_time_value_it_ok)
        with m1 show ?thesis by simp
      qed
    qed
  qed
qed

lemma compute_lux_it_ok: "compute_lux als uc m = (Inr v, m') \<Longrightarrow> it_ok m"
  by (auto simp: compute_lux_def bind_apply Let_def split: prod.splits sum.splits
      intro: resolution_it_ok)

lemma lux_it_ok: "lux m = (Inr v, m') \<Longrightarrow> it_ok m"
  by (auto simp: lux_def bind_apply split: prod.splits sum.splits intro: resolution_it_ok)

lemma read_als_wait_it_ok: "read_als_wait m = (Inr v, m') \<Longrightarrow> it_ok m"
  by (auto simp: read_als_wait_def bind_apply split: prod.splits sum.splits
      intro: integration_time_value_it_ok)

lemma wait_autolux_it_ok: "wait_autolux w m = (Inr v, m') \<Longrightarrow> it_ok m"
  by (auto simp: wait_autolux_def bind_apply split: prod.splits sum.splits
      intro: integration_time_value_it_ok)

lemma autolux_first_read_it_ok:
  assumes "bind (bind get_light_gain (index gain_settings)) (\<lambda>_.
           bind (bind get_light_integration_time (index integration_time_settings)) (\<lambda>_.
           read_als_wait)) m = (Inr als, m1)"
  shows "it_ok m"
proof (rule ccontr)
  assume "\<not> it_ok m"
  then have "light_integration_time m \<notin> set integration_time_settings"
    by (simp add: it_ok_def)
  then have "index_from integration_time_settings (light_integration_time m) 0 = None"
    by (simp add: index_from_None)
  with assms show False
    by (auto simp: bind_apply get_light_gain_def get_light_integration_time_def bus_txn_def
        index_def split: option.splits prod.splits sum.splits)
qed

lemma autolux_ranging_it_ok: "autolux_ranging m = Some (Inr v, m') \<Longrightarrow> it_ok m"
  unfolding autolux_ranging_def Let_def
  by (auto split: prod.splits sum.splits intro: autolux_first_read_it_ok)

lemma autolux_it_ok: "autolux m = Some (Inr v, m') \<Longrightarrow> it_ok m"
  unfolding autolux_def
  by (auto split: option.splits prod.splits sum.splits intro: autolux_ranging_it_ok)

subsection \<open>The functions return when the field holds one of the six codes\<close>

lemma resolution_returns:
  assumes "bus_ok m" and "it_ok m"
  shows "\<exists>r k. resolution m = (Inr r, m\<lparr>n_txn := n_txn m + k\<rparr>)"
proof -
  from gain_total[of "light_gain m"] obtain g where g: "gain_values (light_gain m) = Some g"
    by blast
  from it_ok_lookup[OF assms(2)] obtain t
    where t: "integration_time_values (light_integration_time m) = Some t" ..
  from resolution_ok[OF assms(1) g t] show ?thesis by blast
qed

lemma compute_lux_returns:
  assumes "bus_ok m" and "it_ok m"
  shows "\<exists>r m'. resolution m = (Inr r, m')
     \<and> compute_lux als uc m = (Inr (if uc then correction (r * of_int als) else r * of_int als), m')"
proof -
  from resolution_returns[OF assms] obtain r k
    where "resolution m = (Inr r, m\<lparr>n_txn := n_txn m + k\<rparr>)" by blast
  then show ?thesis by (simp add: compute_lux_def bind_apply Let_def)
qed

lemma lux_returns:
  assumes "bus_ok m" and "it_ok m"
  shows "\<exists>v m'. lux m = (Inr v, m')"
proof -
  from resolution_returns[OF assms] obtain r k
    where r: "resolution m = (Inr r, m\<lparr>n_txn := n_txn m + k\<rparr>)" by blast
  have "bus_ok (m\<lparr>n_txn := n_txn m + k\<rparr>)" using assms(1) by simp
  from get_light_ok[OF this] r show ?thesis by (simp add: lux_def bind_apply)
qed

lemma autolux_ranging_low:
  assumes "bus_ok m" and "it_ok m" and "uint (feed m (n_reads m)) \<le> 100"
  shows "\<exists>m1 gi ii als m'.
       autolux_ranging m = Some (Inr (gi, ii, False, als), m')
     \<and> low_post 0 2 (uint (feed m (n_reads m))) m1 gi ii als m'
     \<and> light_gain m1 = light_gain m \<and> light_integration_time m1 = light_integration_time m
     \<and> feed m1 = feed m \<and> n_reads m1 = Suc (n_reads m)"
proof -
  from autolux_first_read[OF assms(1,2)] obtain m1 where
    f: "bind (bind get_light_gain (index gain_settings)) (\<lambda>_.
          bind (bind get_light_integration_time (index integration_time_settings)) (\<lambda>_.
          read_als_wait)) m = (Inr (uint (feed m (n_reads m))), m1)"
    and m1: "bus_ok m1" "it_ok m1" "light_gain m1 = light_gain m"
      "light_integration_time m1 = light_integration_time m"
      "feed m1 = feed m" "n_reads m1 = Suc (n_reads m)"
    by blast
  from low_loop_run[OF m1(1,2), of 0 2 "uint (feed m (n_reads m))"]
  obtain gi ii als m' where
    r: "low_loop 0 2 (uint (feed m (n_reads m))) m1 = Some (Inr (gi, ii, als), m')"
    and p: "low_post 0 2 (uint (feed m (n_reads m))) m1 gi ii als m'"
    by auto
  have "autolux_ranging m = Some (Inr (gi, ii, False, als), m')"
    using f r assms(3) by (simp add: autolux_ranging_def Let_def)
  with p m1 show ?thesis by blast
qed

lemma autolux_ranging_high:
  assumes "bus_ok m" and "it_ok m" and "100 < uint (feed m (n_reads m))"
  shows "\<exists>m1 ii als m'.
       autolux_ranging m = Some (Inr (0, ii, True, als), m')
     \<and> high_post 2 (uint (feed m (n_reads m))) m1 ii als m'
     \<and> light_gain m1 = light_gain m \<and> light_integration_time m1 = light_integration_time m
     \<and> feed m1 = feed m \<and> n_reads m1 = Suc (n_reads m)"
proof -
  from autolux_first_read[OF assms(1,2)] obtain m1 where
    f: "bind (bind get_light_gain (index gain_settings)) (\<lambda>_.
          bind (bind get_light_integration_time (index integration_time_settings)) (\<lambda>_.
          read_als_wait)) m = (Inr (uint (feed m (n_reads m))), m1)"
    and m1: "bus_ok m1" "it_ok m1" "light_gain m1 = light_gain m"
      "light_integration_time m1 = light_integration_time m"
      "feed m1 = feed m" "n_reads m1 = Suc (n_reads m)"
    by blast
  from high_loop_run[OF m1(1,2), of 2 "uint (feed m (n_reads m))"]
  obtain ii als m' where
    r: "high_loop 2 (uint (feed m (n_reads m))) m1 = (Inr (ii, als), m')"
    and p: "high_post 2 (uint (feed m (n_reads m))) m1 ii als m'"
    by auto
  have "autolux_ranging m = Some (Inr (0, ii, True, als), m')"
    using f r assms(3) by (simp add: autolux_ranging_def Let_def)
  with p m1 show ?thesis by blast
qed

lemma autolux_after_ranging:
  assumes "autolux_ranging m = Some (Inr (gi, ii, uc, als), m')" and "bus_ok m'" and "it_ok m'"
  shows "\<exists>r m''. resolution m' = (Inr r, m'')
     \<and> autolux m = Some (compute_lux als uc m')
     \<and> autolux m = Some (Inr (if uc then correction (r * of_int als) else r * of_int als), m'')"
proof -
  from compute_lux_returns[OF assms(2,3), of als uc] obtain r m'' where
    "resolution m' = (Inr r, m'')"
    "compute_lux als uc m' = (Inr (if uc then correction (r * of_int als) else r * of_int als), m'')"
    by blast
  moreover have "autolux m = Some (compute_lux als uc m')"
    using assms(1) by (simp add: autolux_def)
  ultimately show ?thesis by auto
qed

lemma autolux_returns:
  assumes "bus_ok m" and "it_ok m"
  shows "\<exists>v m'. autolux m = Some (Inr v, m')"
proof (cases "uint (feed m (n_reads m)) \<le> 100")
  case True
  from autolux_ranging_low[OF assms True] obtain m1 gi ii als m' where
    r: "autolux_ranging m = Some (Inr (gi, ii, False, als), m')"
    and p: "low_post 0 2 (uint (feed m (n_reads m))) m1 gi ii als m'"
    by blast
  from p have "bus_ok m'" "it_ok m'" by (simp_all add: low_post_def)
  from autolux_after_ranging[OF r this] show ?thesis by blast
next
  case False
  then have h: "100 < uint (feed m (n_reads m))" by simp
  from autolux_ranging_high[OF assms h] obtain m1 ii als m' where
    r: "autolux_ranging m = Some (Inr (0, ii, True, als), m')"
    and p: "high_post 2 (uint (feed m (n_reads m))) m1 ii als m'"
    by blast
  from p have "bus_ok m'" "it_ok m'" by (simp_all add: high_post_def)
  from autolux_after_ranging[OF r this] show ?thesis by blast
qed

subsection \<open>Undefined integration-time codes\<close>

lemma it_ok_codes: "it_ok m \<longleftrightarrow> light_integration_time m \<in> {0xC, 0x8, 0x0, 0x1, 0x2, 0x3}"
  by (simp add: it_ok_def integration_time_settings_def ALS_defs)

lemma autolux_bad_code:
  assumes "bus_ok m" and "\<not> it_ok m"
  shows "autolux m = Some (Inl ValueError, m\<lparr>n_txn := Suc (Suc (n_txn m))\<rparr>)"
proof -
  let ?m1 = "m\<lparr>n_txn := Suc (n_txn m)\<rparr>"
  let ?m2 = "m\<lparr>n_txn := Suc (Suc (n_txn m))\<rparr>"
  from index_found[OF gain_settings_all] obtain k1 where
    k1: "index gain_settings (light_gain m) ?m1 = (Inr k1, ?m1)" by blast
  from assms(2) have "light_integration_time m \<notin> set integration_time_settings"
    by (simp add: it_ok_def)
  from index_missing[OF this]
  have k2: "index integration_time_settings (light_integration_time m) ?m2 = (Inl ValueError, ?m2)" .
  have "bind (bind get_light_gain (index gain_settings)) (\<lambda>_.
          bind (bind get_light_integration_time (index integration_time_settings)) (\<lambda>_.
          read_als_wait)) m = (Inl ValueError, ?m2)"
    using assms(1) k1 k2
    by (simp add: bind_apply get_light_gain_ok get_light_integration_time_ok)
  then show ?thesis by (simp add: autolux_def autolux_ranging_def Let_def)
qed

subsection \<open>The two lists and the sensitivity\<close>

lemma it_ok_machine_at [simp]:
  "it_ok (machine_at g c f) \<longleftrightarrow> c \<in> set integration_time_settings"
  by (simp add: it_ok_def)

lemma gain_settings_nth:
  "gain_settings ! 0 = ALS_GAIN_1_8" "gain_settings ! 1 = ALS_GAIN_1_4"
  "gain_settings ! 2 = ALS_GAIN_1" "gain_settings ! 3 = ALS_GAIN_2"
  by (simp_all add: gain_settings_def)

lemma integration_time_settings_nth:
  "integration_time_settings ! 0 = ALS_25MS" "integration_time_settings ! 1 = ALS_50MS"
  "integration_time_settings ! 2 = ALS_100MS" "integration_time_settings ! 3 = ALS_200MS"
  "integration_time_settings ! 4 = ALS_400MS" "integration_time_settings ! 5 = ALS_800MS"
  by (simp_all add: integration_time_settings_def)

text \<open>Along each of the two lists the value looked up grows.\<close>

lemma gain_step_increases:
  assumes "0 \<le> gi" and "gi < 3"
    and "gain_values (gain_settings ! nat gi) = Some g"
    and "gain_values (gain_settings ! nat (gi + 1)) = Some g'"
  shows "0 < g \<and> g < g'"
proof -
  from assms(1,2) have "gi = 0 \<or> gi = 1 \<or> gi = 2" by arith
  then show ?thesis
    using assms(3,4) by (elim disjE) (simp_all add: gain_settings_def gain_values_at)
qed

lemma integration_time_step_increases:
  assumes "0 \<le> ii" and "ii < 5"
    and "integration_time_values (integration_time_settings ! nat ii) = Some t"
    and "integration_time_values (integration_time_settings ! nat (ii + 1)) = Some t'"
  shows "0 < t \<and> t < t'"
proof -
  from assms(1,2) have "ii = 0 \<or> ii = 1 \<or> ii = 2 \<or> ii = 3 \<or> ii = 4" by arith
  then show ?thesis
    using assms(3,4)
    by (elim disjE) (simp_all add: integration_time_settings_def integration_time_values_at)
qed

lemma integration_time_settings_lookup:
  assumes "0 \<le> ii" and "ii < 6"
  shows "\<exists>t. integration_time_values (integration_time_settings ! nat ii) = Some t \<and> 0 < t"
proof -
  from nth_integration_time_settings_ok[OF assms]
  have "integration_time_settings ! nat ii \<in> dom integration_time_values"
    unfolding it_dom by (simp add: integration_time_settings_def ALS_defs)
  then obtain t where t: "integration_time_values (integration_time_settings ! nat ii) = Some t"
    by blast
  from integration_time_values_pos[OF t] have "0 < t" by auto
  with t show ?thesis by blast
qed

lemma gain_settings_lookup:
  "\<exists>g. gain_values (gain_settings ! nat gi) = Some g \<and> 0 < g"
proof -
  from gain_total[of "gain_settings ! nat gi"] obtain g
    where g: "gain_values (gain_settings ! nat gi) = Some g" by blast
  from gain_values_pos[OF g] have "0 < g" by auto
  with g show ?thesis by blast
qed

text \<open>The sensitivity (gain times integration time) the two indices stand for.\<close>

lemma sensitivity_gain_step:
  assumes "0 \<le> gi" and "gi < 3" and "0 \<le> ii" and "ii \<le> 5"
  shows "\<exists>g t g'. gain_values (gain_settings ! nat gi) = Some g
     \<and> integration_time_values (integration_time_settings ! nat ii) = Some t
     \<and> gain_values (gain_settings ! nat (gi + 1)) = Some g'
     \<and> g * of_int t < g' * of_int t"
proof -
  from gain_settings_lookup obtain g where g: "gain_values (gain_settings ! nat gi) = Some g"
    by blast
  from gain_settings_lookup obtain g'
    where g': "gain_values (gain_settings ! nat (gi + 1)) = Some g'" by blast
  from integration_time_settings_lookup[of ii] assms(3,4) obtain t
    where t: "integration_time_values (integration_time_settings ! nat ii) = Some t" "0 < t"
    by auto
  from gain_step_increases[OF assms(1,2) g g'] t(2) have "g * of_int t < g' * of_int t"
    by simp
  with g g' t(1) show ?thesis by blast
qed

lemma sensitivity_it_step:
  assumes "0 \<le> ii" and "ii < 5"
  shows "\<exists>g t t'. gain_values (gain_settings ! nat gi) = Some g
     \<and> integration_time_values (integration_time_settings ! nat ii) = Some t
     \<and> integration_time_values (integration_time_settings ! nat (ii + 1)) = Some t'
     \<and> g * of_int t < g * of_int t'"
proof -
  from gain_settings_lookup obtain g
    where g: "gain_values (gain_settings ! nat gi) = Some g" "0 < g" by blast
  from integration_time_settings_lookup[of ii] assms obtain t
    where t: "integration_time_values (integration_time_settings ! nat ii) = Some t" by auto
  from integration_time_settings_lookup[of "ii + 1"] assms obtain t'
    where t': "integration_time_values (integration_time_settings ! nat (ii + 1)) = Some t'"
    by auto
  from integration_time_step_increases[OF assms t t'] g(2) have "g * of_int t < g * of_int t'"
    by simp
  with g(1) t t' show ?thesis by blast
qed

subsection \<open>Runs of autolux\<close>

lemma low_step_either:
  assumes "bus_ok m" and "it_ok m" and "0 \<le> gi" and "gi \<le> 3" and "0 \<le> ii" and "ii \<le> 5"
    and "\<not> (gi = 3 \<and> ii = 5)"
  shows "\<exists>gi' ii' als' m1 g t g' t'.
       low_step gi ii m = (Inr (gi', ii', als'), m1)
     \<and> (gi' = gi + 1 \<and> ii' = ii \<or> gi' = gi \<and> ii' = ii + 1)
     \<and> gain_values (gain_settings ! nat gi) = Some g
     \<and> integration_time_values (integration_time_settings ! nat ii) = Some t
     \<and> gain_values (gain_settings ! nat gi') = Some g'
     \<and> integration_time_values (integration_time_settings ! nat ii') = Some t'
     \<and> g * of_int t < g' * of_int t'
     \<and> bus_ok m1 \<and> it_ok m1 \<and> feed m1 = feed m \<and> n_reads m1 = Suc (n_reads m)"
proof (cases "gi < 3")
  case True
  from low_step_gain[OF assms(1,2,3) True, of ii] obtain m1 where
    s: "low_step gi ii m = (Inr (gi + 1, ii, uint (feed m (n_reads m))), m1)"
      "bus_ok m1" "it_ok m1" "feed m1 = feed m" "n_reads m1 = Suc (n_reads m)" by blast
  from sensitivity_gain_step[OF assms(3) True assms(5,6)] obtain g t g' where
    "gain_values (gain_settings ! nat gi) = Some g"
    "integration_time_values (integration_time_settings ! nat ii) = Some t"
    "gain_values (gain_settings ! nat (gi + 1)) = Some g'"
    "g * of_int t < g' * of_int t"
    by blast
  with s show ?thesis by blast
next
  case False
  with assms have g3: "gi = 3" and i5: "ii < 5" by auto
  from low_step_it[OF assms(1) False assms(5) i5] obtain m1 where
    s: "low_step gi ii m = (Inr (gi, ii + 1, uint (feed m (n_reads m))), m1)"
      "bus_ok m1" "it_ok m1" "feed m1 = feed m" "n_reads m1 = Suc (n_reads m)" by blast
  from sensitivity_it_step[OF assms(5) i5, of gi] obtain g t t' where
    "gain_values (gain_settings ! nat gi) = Some g"
    "integration_time_values (integration_time_settings ! nat ii) = Some t"
    "integration_time_values (integration_time_settings ! nat (ii + 1)) = Some t'"
    "g * of_int t < g * of_int t'"
    by blast
  with s show ?thesis by blast
qed

lemma autolux_ranging_dim:
  assumes "bus_ok m" and "it_ok m" and dim: "\<forall>k\<ge>n_reads m. uint (feed m k) \<le> 100"
  shows "\<exists>m'. autolux_ranging m = Some (Inr (3, 5, False, uint (feed m (n_reads m + 6))), m')
     \<and> n_reads m' = n_reads m + 7
     \<and> light_gain m' = ALS_GAIN_2 \<and> light_integration_time m' = ALS_800MS
     \<and> bus_ok m' \<and> it_ok m'"
proof -
  from dim have first: "uint (feed m (n_reads m)) \<le> 100" by simp
  from autolux_ranging_low[OF assms(1,2) first] obtain m1 gi ii als m' where
    r: "autolux_ranging m = Some (Inr (gi, ii, False, als), m')"
    and p: "low_post 0 2 (uint (feed m (n_reads m))) m1 gi ii als m'"
    and m1: "feed m1 = feed m" "n_reads m1 = Suc (n_reads m)"
    by blast
  from p have b: "0 \<le> gi" "gi \<le> 3" "2 \<le> ii" "ii \<le> 5"
    and e: "100 < als \<or> gi = 3 \<and> ii = 5"
    and n: "int (n_reads m') = int (n_reads m1) + (gi - 0) + (ii - 2)"
    and a: "als = (if gi = 0 \<and> ii = 2 then uint (feed m (n_reads m))
                   else uint (feed m1 (n_reads m' - 1)))"
    and ok: "bus_ok m'" "it_ok m'"
    and lg: "light_gain m' = (if gi = 0 then light_gain m1 else gain_settings ! nat gi)"
    and li: "light_integration_time m' =
               (if ii = 2 then light_integration_time m1 else integration_time_settings ! nat ii)"
    unfolding low_post_def by blast+
  have ge: "n_reads m \<le> n_reads m' - 1" using n m1(2) b by simp
  have "als \<le> 100"
    using a first dim ge m1(1) by (simp split: if_splits)
  with e have gi: "gi = 3" and ii: "ii = 5" by simp_all
  from n gi ii m1(2) have nr: "n_reads m' = n_reads m + 7" by simp
  then have "n_reads m' - 1 = n_reads m + 6" by simp
  with a gi m1(1) have als: "als = uint (feed m (n_reads m + 6))" by simp
  from lg gi have "light_gain m' = ALS_GAIN_2" by (simp add: gain_settings_def)
  moreover from li ii have "light_integration_time m' = ALS_800MS"
    by (simp add: integration_time_settings_def)
  ultimately show ?thesis using r gi ii als nr ok by simp
qed

lemma autolux_ranging_mid:
  assumes "bus_ok m" and "it_ok m" and "100 < uint (feed m (n_reads m))"
    and "uint (feed m (n_reads m)) \<le> 10000"
  shows "\<exists>m'. autolux_ranging m = Some (Inr (0, 2, True, uint (feed m (n_reads m))), m')
     \<and> bus_ok m' \<and> it_ok m'
     \<and> light_gain m' = light_gain m \<and> light_integration_time m' = light_integration_time m
     \<and> n_reads m' = Suc (n_reads m)"
proof -
  from autolux_first_read[OF assms(1,2)] obtain m1 where
    f: "bind (bind get_light_gain (index gain_settings)) (\<lambda>_.
          bind (bind get_light_integration_time (index integration_time_settings)) (\<lambda>_.
          read_als_wait)) m = (Inr (uint (feed m (n_reads m))), m1)"
    and m1: "bus_ok m1" "it_ok m1" "light_gain m1 = light_gain m"
      "light_integration_time m1 = light_integration_time m"
      "n_reads m1 = Suc (n_reads m)"
    by blast
  have "high_loop 2 (uint (feed m (n_reads m))) m1 = (Inr (2, uint (feed m (n_reads m))), m1)"
    using assms(4) by (intro high_loop_exit) simp
  then have "autolux_ranging m = Some (Inr (0, 2, True, uint (feed m (n_reads m))), m1)"
    using f assms(3) by (simp add: autolux_ranging_def Let_def)
  with m1 show ?thesis by blast
qed

text \<open>
  The two counters of the low-light loop, on any machine: with every guarded reading at
  or below 100 each iteration increments exactly one of them, the product of the two
  table entries at the counters grows, and the loop ends at the counters 3 and 5 after
  six more guarded reads than the first. This is about the counters and the tables:
  the registers of the sensor need not hold the entries at the counters.
\<close>

lemma autolux_low_light_indices:
  assumes "bus_ok m" and "it_ok m" and "\<forall>k\<ge>n_reads m. uint (feed m k) \<le> 100"
  shows "(\<exists>m' m''.
            autolux_ranging m = Some (Inr (3, 5, False, uint (feed m (n_reads m + 6))), m')
          \<and> n_reads m' = n_reads m + 7
          \<and> light_gain m' = ALS_GAIN_2 \<and> light_integration_time m' = ALS_800MS
          \<and> autolux m = Some (Inr (42 / 10000 * of_int (uint (feed m (n_reads m + 6)))), m''))
     \<and> (0 \<le> gi \<and> gi \<le> 3 \<and> 2 \<le> ii \<and> ii \<le> 5 \<and> \<not> (gi = 3 \<and> ii = 5) \<and> als \<le> 100 \<longrightarrow>
          (\<exists>gi' ii' als' m1 g t g' t'.
               low_step gi ii m = (Inr (gi', ii', als'), m1)
             \<and> low_loop gi ii als m = low_loop gi' ii' als' m1
             \<and> (gi' = gi + 1 \<and> ii' = ii \<or> gi' = gi \<and> ii' = ii + 1)
             \<and> gain_values (gain_settings ! nat gi) = Some g
             \<and> integration_time_values (integration_time_settings ! nat ii) = Some t
             \<and> gain_values (gain_settings ! nat gi') = Some g'
             \<and> integration_time_values (integration_time_settings ! nat ii') = Some t'
             \<and> g * of_int t < g' * of_int t'
             \<and> als' \<le> 100
             \<and> bus_ok m1 \<and> it_ok m1 \<and> (\<forall>k\<ge>n_reads m1. uint (feed m1 k) \<le> 100)))"
proof (intro conjI impI)
  from autolux_ranging_dim[OF assms] obtain m' where
    r: "autolux_ranging m = Some (Inr (3, 5, False, uint (feed m (n_reads m + 6))), m')"
    and m': "n_reads m' = n_reads m + 7" "light_gain m' = ALS_GAIN_2"
      "light_integration_time m' = ALS_800MS" "bus_ok m'" "it_ok m'"
    by blast
  from autolux_after_ranging[OF r m'(4,5)] obtain r' m'' where
    res: "resolution m' = (Inr r', m'')"
    and a: "autolux m = Some (Inr (r' * of_int (uint (feed m (n_reads m + 6)))), m'')"
    by auto
  have "gain_values (light_gain m') = Some 2"
    "integration_time_values (light_integration_time m') = Some 800"
    using m'(2,3) by (simp_all add: gain_values_at integration_time_values_at)
  from resolution_ok[OF m'(4) this] res have "r' = 42 / 10000" by simp
  with r m' a
  show "\<exists>m' m''.
      autolux_ranging m = Some (Inr (3, 5, False, uint (feed m (n_reads m + 6))), m')
      \<and> n_reads m' = n_reads m + 7
      \<and> light_gain m' = ALS_GAIN_2 \<and> light_integration_time m' = ALS_800MS
      \<and> autolux m = Some (Inr (42 / 10000 * of_int (uint (feed m (n_reads m + 6)))), m'')"
    by blast
next
  assume h: "0 \<le> gi \<and> gi \<le> 3 \<and> 2 \<le> ii \<and> ii \<le> 5 \<and> \<not> (gi = 3 \<and> ii = 5) \<and> als \<le> 100"
  then have b: "0 \<le> gi" "gi \<le> 3" "0 \<le> ii" "ii \<le> 5" "\<not> (gi = 3 \<and> ii = 5)" "als \<le> 100"
    by simp_all
  from low_step_either[OF assms(1,2) b(1-5)] obtain gi' ii' als' m1 g t g' t' where
    s: "low_step gi ii m = (Inr (gi', ii', als'), m1)"
    and c: "gi' = gi + 1 \<and> ii' = ii \<or> gi' = gi \<and> ii' = ii + 1"
    and v: "gain_values (gain_settings ! nat gi) = Some g"
      "integration_time_values (integration_time_settings ! nat ii) = Some t"
      "gain_values (gain_settings ! nat gi') = Some g'"
      "integration_time_values (integration_time_settings ! nat ii') = Some t'"
      "g * of_int t < g' * of_int t'"
    and m1: "bus_ok m1" "it_ok m1" "feed m1 = feed m" "n_reads m1 = Suc (n_reads m)"
    by blast
  have u: "low_loop gi ii als m = low_loop gi' ii' als' m1"
    using b(6) b(5) s by (rule low_loop_iterate)
  have d: "\<forall>k\<ge>n_reads m1. uint (feed m1 k) \<le> 100"
    using assms(3) m1(3,4) by simp
  have "als' = uint (feed m (n_reads m))"
  proof (cases "gi < 3")
    case True
    from low_step_gain[OF assms(1,2) b(1) True, of ii] s show ?thesis by auto
  next
    case False
    with b have "ii < 5" by auto
    from low_step_it[OF assms(1) False b(3) this] s show ?thesis by auto
  qed
  with assms(3) have l: "als' \<le> 100" by simp
  from s u c v l m1(1,2) d
  show "\<exists>gi' ii' als' m1 g t g' t'.
      low_step gi ii m = (Inr (gi', ii', als'), m1)
      \<and> low_loop gi ii als m = low_loop gi' ii' als' m1
      \<and> (gi' = gi + 1 \<and> ii' = ii \<or> gi' = gi \<and> ii' = ii + 1)
      \<and> gain_values (gain_settings ! nat gi) = Some g
      \<and> integration_time_values (integration_time_settings ! nat ii) = Some t
      \<and> gain_values (gain_settings ! nat gi') = Some g'
      \<and> integration_time_values (integration_time_settings ! nat ii') = Some t'
      \<and> g * of_int t < g' * of_int t'
      \<and> als' \<le> 100
      \<and> bus_ok m1 \<and> it_ok m1 \<and> (\<forall>k\<ge>n_reads m1. uint (feed m1 k) \<le> 100)"
    by blast
qed

section \<open>Properties of the driver\<close>

text \<open>
  C1. In the low-light branch of \<^verbatim>\<open>autolux\<close>, from \<open>gain_index = 0\<close> and \<open>it_index = 2\<close>,
  if every guarded reading stays at or below 100, each iteration increments exactly one
  of the two indices, so that the combined sensitivity strictly increases, and the loop
  ends after at most six more guarded reads than the first with \<open>gain_index = 3\<close> and
  \<open>it_index = 5\<close>. The code does this for the indices and the number of reads, but not
  for the sensitivity of the sensor, since the indices start at 0 and 2 whatever the
  registers hold (lines 328 and 329 drop the positions they find). On a sensor at gain 2
  and 800 ms, with every reading 50: the run ends at the indices 3 and 5 after seven
  reads; its first iteration goes from index 0 to 1 and takes the sensor from gain 2 to
  gain 1/4, so gain times integration time falls from 1600 to 200; and the iteration at
  the indices 3 and 2 replaces 800 ms by 200 ms.
\<close>

theorem autolux_low_light_sensitivity_falls:
  "(\<exists>m'. autolux_ranging (machine_at ALS_GAIN_2 ALS_800MS (\<lambda>_. 50))
            = Some (Inr (3, 5, False, 50), m')
        \<and> n_reads m' = 7)
   \<and> (\<exists>m1 m2 g t g' t'.
          bind (bind get_light_gain (index gain_settings)) (\<lambda>_.
          bind (bind get_light_integration_time (index integration_time_settings)) (\<lambda>_.
          read_als_wait)) (machine_at ALS_GAIN_2 ALS_800MS (\<lambda>_. 50)) = (Inr 50, m1)
        \<and> low_step 0 2 m1 = (Inr (1, 2, 50), m2)
        \<and> low_loop 0 2 50 m1 = low_loop 1 2 50 m2
        \<and> gain_values (light_gain m1) = Some g
        \<and> integration_time_values (light_integration_time m1) = Some t
        \<and> gain_values (light_gain m2) = Some g'
        \<and> integration_time_values (light_integration_time m2) = Some t'
        \<and> g = 2 \<and> t = 800 \<and> g' = 1 / 4 \<and> t' = 800
        \<and> g' * of_int t' < g * of_int t)
   \<and> (\<exists>m1. low_step 3 2 (machine_at ALS_GAIN_2 ALS_800MS (\<lambda>_. 50)) = (Inr (3, 3, 50), m1)
        \<and> gain_values (light_gain m1) = Some 2
        \<and> integration_time_values (light_integration_time (machine_at ALS_GAIN_2 ALS_800MS (\<lambda>_. 50)))
            = Some 800
        \<and> integration_time_values (light_integration_time m1) = Some 200)"
proof (intro conjI)
  let ?m = "machine_at ALS_GAIN_2 ALS_800MS (\<lambda>_. 50)"
  have ok: "bus_ok ?m" "it_ok ?m" by (simp_all add: integration_time_settings_def)
  have dim: "\<forall>k\<ge>n_reads ?m. uint (feed ?m k) \<le> 100" by simp
  from autolux_ranging_dim[OF ok dim]
  show "\<exists>m'. autolux_ranging ?m = Some (Inr (3, 5, False, 50), m') \<and> n_reads m' = 7"
    by auto
  from autolux_first_read[OF ok] obtain m1 where
    f: "bind (bind get_light_gain (index gain_settings)) (\<lambda>_.
          bind (bind get_light_integration_time (index integration_time_settings)) (\<lambda>_.
          read_als_wait)) ?m = (Inr 50, m1)"
    and m1: "bus_ok m1" "it_ok m1" "light_gain m1 = ALS_GAIN_2"
      "light_integration_time m1 = ALS_800MS" "feed m1 = (\<lambda>_. 50)"
    by auto
  have z: "(0::int) \<le> 0" "(0::int) < 3" by simp_all
  from low_step_gain[OF m1(1,2) z, of 2] m1(3,4,5) obtain m2 where
    s: "low_step 0 2 m1 = (Inr (1, 2, 50), m2)"
    and m2: "light_gain m2 = ALS_GAIN_1_4" "light_integration_time m2 = ALS_800MS"
    by (auto simp: gain_settings_def)
  have u: "low_loop 0 2 50 m1 = low_loop 1 2 50 m2"
    using s by (intro low_loop_iterate) simp_all
  have v: "gain_values (light_gain m1) = Some 2"
    "integration_time_values (light_integration_time m1) = Some 800"
    "gain_values (light_gain m2) = Some (1 / 4)"
    "integration_time_values (light_integration_time m2) = Some 800"
    using m1(3,4) m2 by (simp_all add: gain_values_at integration_time_values_at)
  have lt: "(1 / 4 :: rat) * of_int 800 < 2 * of_int 800" by simp
  from f s u v lt
  show "\<exists>m1 m2 g t g' t'.
          bind (bind get_light_gain (index gain_settings)) (\<lambda>_.
          bind (bind get_light_integration_time (index integration_time_settings)) (\<lambda>_.
          read_als_wait)) ?m = (Inr 50, m1)
        \<and> low_step 0 2 m1 = (Inr (1, 2, 50), m2)
        \<and> low_loop 0 2 50 m1 = low_loop 1 2 50 m2
        \<and> gain_values (light_gain m1) = Some g
        \<and> integration_time_values (light_integration_time m1) = Some t
        \<and> gain_values (light_gain m2) = Some g'
        \<and> integration_time_values (light_integration_time m2) = Some t'
        \<and> g = 2 \<and> t = 800 \<and> g' = 1 / 4 \<and> t' = 800
        \<and> g' * of_int t' < g * of_int t"
    by (intro exI[of _ m1] exI[of _ m2] exI[of _ 2] exI[of _ 800] exI[of _ "1 / 4"]) simp
  have n3: "\<not> (3::int) < 3" and i: "(0::int) \<le> 2" "(2::int) < 5" by simp_all
  from low_step_it[OF ok(1) n3 i] obtain m3 where
    "low_step 3 2 ?m = (Inr (3, 3, 50), m3)" "light_gain m3 = ALS_GAIN_2"
    "light_integration_time m3 = ALS_200MS"
    by (auto simp: integration_time_settings_def)
  then show "\<exists>m1. low_step 3 2 ?m = (Inr (3, 3, 50), m1)
        \<and> gain_values (light_gain m1) = Some 2
        \<and> integration_time_values (light_integration_time ?m) = Some 800
        \<and> integration_time_values (light_integration_time m1) = Some 200"
    by (auto simp: gain_values_at integration_time_values_at)
qed

text \<open>
  C2. In the high-light branch of \<^verbatim>\<open>autolux\<close> (first guarded reading above 100)
  \<^verbatim>\<open>use_correction\<close> is true in every case, also when the first reading is at most 10000
  and the loop does not run. While \<open>als > 10000\<close> and \<open>it_index > 0\<close> each iteration
  lowers \<open>it_index\<close> by exactly one, never below 0: from the initial 2 that is at most two
  further guarded reads. The value returned is \<^verbatim>\<open>compute_lux(als, True)\<close> for the last
  reading.
\<close>

theorem autolux_high_light_branch:
  assumes "bus_ok m" and "it_ok m" and "100 < uint (feed m (n_reads m))"
  shows "(\<exists>ii als m' r m''.
            autolux_ranging m = Some (Inr (0, ii, True, als), m')
          \<and> 0 \<le> ii \<and> ii \<le> 2
          \<and> int (n_reads m') = int (n_reads m) + 1 + (2 - ii)
          \<and> n_reads m' \<le> n_reads m + 3
          \<and> (als \<le> 10000 \<or> ii = 0)
          \<and> als = uint (feed m (n_reads m' - 1))
          \<and> light_gain m' = light_gain m
          \<and> light_integration_time m' =
              (if ii = 2 then light_integration_time m else integration_time_settings ! nat ii)
          \<and> resolution m' = (Inr r, m'')
          \<and> autolux m = Some (compute_lux als True m')
          \<and> autolux m = Some (Inr (correction (r * of_int als)), m''))
     \<and> (uint (feed m (n_reads m)) \<le> 10000 \<longrightarrow>
          (\<exists>m'. autolux_ranging m = Some (Inr (0, 2, True, uint (feed m (n_reads m))), m')
               \<and> n_reads m' = n_reads m + 1
               \<and> light_integration_time m' = light_integration_time m))
     \<and> (10000 < a \<and> 0 < i \<and> i \<le> 5 \<longrightarrow>
          (\<exists>m1. high_loop i a m = high_loop (i - 1) (uint (feed m (n_reads m))) m1
               \<and> light_integration_time m1 = integration_time_settings ! nat (i - 1)
               \<and> n_reads m1 = n_reads m + 1))
     \<and> (a \<le> 10000 \<or> i \<le> 0 \<longrightarrow> high_loop i a m = (Inr (i, a), m))"
proof (intro conjI impI)
  from autolux_ranging_high[OF assms] obtain m1 ii als m' where
    r: "autolux_ranging m = Some (Inr (0, ii, True, als), m')"
    and p: "high_post 2 (uint (feed m (n_reads m))) m1 ii als m'"
    and m1: "light_gain m1 = light_gain m" "light_integration_time m1 = light_integration_time m"
      "feed m1 = feed m" "n_reads m1 = Suc (n_reads m)"
    by blast
  from p have b: "0 \<le> ii" "ii \<le> 2"
    and e: "als \<le> 10000 \<or> ii = 0"
    and n: "int (n_reads m') = int (n_reads m1) + (2 - ii)"
    and a: "als = (if ii = 2 then uint (feed m (n_reads m))
                   else uint (feed m1 (n_reads m' - 1)))"
    and ok: "bus_ok m'" "it_ok m'"
    and lg: "light_gain m' = light_gain m1"
    and li: "light_integration_time m' =
               (if ii = 2 then light_integration_time m1 else integration_time_settings ! nat ii)"
    unfolding high_post_def by blast+
  from n m1(4) have n': "int (n_reads m') = int (n_reads m) + 1 + (2 - ii)" by simp
  with b have n3: "n_reads m' \<le> n_reads m + 3" by simp
  have "n_reads m' - 1 = n_reads m" if "ii = 2" using n' that by simp
  with a m1(3) have a': "als = uint (feed m (n_reads m' - 1))" by (simp split: if_splits)
  from autolux_after_ranging[OF r ok] obtain r' m'' where
    "resolution m' = (Inr r', m'')" "autolux m = Some (compute_lux als True m')"
    "autolux m = Some (Inr (correction (r' * of_int als)), m'')"
    by auto
  with r b n' n3 e a' lg li m1(1,2)
  show "\<exists>ii als m' r m''.
      autolux_ranging m = Some (Inr (0, ii, True, als), m')
      \<and> 0 \<le> ii \<and> ii \<le> 2
      \<and> int (n_reads m') = int (n_reads m) + 1 + (2 - ii)
      \<and> n_reads m' \<le> n_reads m + 3
      \<and> (als \<le> 10000 \<or> ii = 0)
      \<and> als = uint (feed m (n_reads m' - 1))
      \<and> light_gain m' = light_gain m
      \<and> light_integration_time m' =
          (if ii = 2 then light_integration_time m else integration_time_settings ! nat ii)
      \<and> resolution m' = (Inr r, m'')
      \<and> autolux m = Some (compute_lux als True m')
      \<and> autolux m = Some (Inr (correction (r * of_int als)), m'')"
    by (intro exI[of _ ii] exI[of _ als] exI[of _ m'] exI[of _ r'] exI[of _ m'']) simp
next
  assume "uint (feed m (n_reads m)) \<le> 10000"
  from autolux_ranging_mid[OF assms this]
  show "\<exists>m'. autolux_ranging m = Some (Inr (0, 2, True, uint (feed m (n_reads m))), m')
      \<and> n_reads m' = n_reads m + 1
      \<and> light_integration_time m' = light_integration_time m"
    by auto
next
  assume h: "10000 < a \<and> 0 < i \<and> i \<le> 5"
  then have h': "10000 < a" "0 < i" "i \<le> 5" by simp_all
  from high_body[OF assms(1) h'(2,3)] obtain m1 where
    s: "bind (getitem integration_time_settings (i - 1)) (\<lambda>t.
          bind (set_light_integration_time t) (\<lambda>_. read_als_wait)) m
        = (Inr (uint (feed m (n_reads m))), m1)"
    and m1: "light_integration_time m1 = integration_time_settings ! nat (i - 1)"
      "n_reads m1 = Suc (n_reads m)"
    by blast
  from high_loop_iterate[OF h'(1,2) s] m1
  show "\<exists>m1. high_loop i a m = high_loop (i - 1) (uint (feed m (n_reads m))) m1
      \<and> light_integration_time m1 = integration_time_settings ! nat (i - 1)
      \<and> n_reads m1 = n_reads m + 1"
    by auto
next
  assume "a \<le> 10000 \<or> i \<le> 0"
  then show "high_loop i a m = (Inr (i, a), m)" by (rule high_loop_exit)
qed

theorem autolux_high_light_branch_witness:
  "bus_ok (machine_at ALS_GAIN_1_8 ALS_100MS (\<lambda>_. 5000))
   \<and> it_ok (machine_at ALS_GAIN_1_8 ALS_100MS (\<lambda>_. 5000))
   \<and> (\<exists>m'. autolux_ranging (machine_at ALS_GAIN_1_8 ALS_100MS (\<lambda>_. 5000))
                = Some (Inr (0, 2, True, 5000), m')
            \<and> n_reads m' = 1 \<and> light_integration_time m' = ALS_100MS)
   \<and> (\<exists>m' r m''. autolux_ranging (machine_at ALS_GAIN_1_8 ALS_100MS (\<lambda>_. 20000))
                = Some (Inr (0, 0, True, 20000), m')
            \<and> n_reads m' = 3 \<and> light_integration_time m' = ALS_25MS
            \<and> resolution m' = (Inr r, m'')
            \<and> autolux (machine_at ALS_GAIN_1_8 ALS_100MS (\<lambda>_. 20000))
                = Some (Inr (correction (r * 20000)), m''))"
proof -
  let ?a = "machine_at ALS_GAIN_1_8 ALS_100MS (\<lambda>_. 5000)"
  let ?b = "machine_at ALS_GAIN_1_8 ALS_100MS (\<lambda>_. 20000)"
  have oka: "bus_ok ?a" "it_ok ?a" and okb: "bus_ok ?b" "it_ok ?b"
    by (simp_all add: integration_time_settings_def)
  have ha: "100 < uint (feed ?a (n_reads ?a))" and hb: "100 < uint (feed ?b (n_reads ?b))"
    by simp_all
  from autolux_high_light_branch [OF oka ha]
  have 1: "\<exists>m'. autolux_ranging ?a = Some (Inr (0, 2, True, 5000), m')
            \<and> n_reads m' = 1 \<and> light_integration_time m' = ALS_100MS"
    by simp
  from autolux_high_light_branch [OF okb hb]
  obtain ii als m' r m'' where
    r: "autolux_ranging ?b = Some (Inr (0, ii, True, als), m')"
    and b: "0 \<le> ii" "ii \<le> 2" "int (n_reads m') = int (n_reads ?b) + 1 + (2 - ii)"
      "als \<le> 10000 \<or> ii = 0" "als = uint (feed ?b (n_reads m' - 1))"
      "light_integration_time m' =
         (if ii = 2 then light_integration_time ?b else integration_time_settings ! nat ii)"
      "resolution m' = (Inr r, m'')"
      "autolux ?b = Some (Inr (correction (r * of_int als)), m'')"
    by blast
  from b(5) have als: "als = 20000" by simp
  with b(4) have ii: "ii = 0" by simp
  with b(3) have n: "n_reads m' = 3" by simp
  from b(6) ii have li: "light_integration_time m' = ALS_25MS"
    by (simp add: integration_time_settings_def)
  from r als ii n li b(7,8)
  have 2: "\<exists>m' r m''. autolux_ranging ?b = Some (Inr (0, 0, True, 20000), m')
            \<and> n_reads m' = 3 \<and> light_integration_time m' = ALS_25MS
            \<and> resolution m' = (Inr r, m'')
            \<and> autolux ?b = Some (Inr (correction (r * 20000)), m'')"
    by auto
  from oka 1 2 show ?thesis by blast
qed

text \<open>
  C3. Whenever the driver computes a resolution, the gain index and the integration-time
  index it works with are those of the values latched in the device's registers, in
  particular throughout \<^verbatim>\<open>autolux\<close>, whatever the device held at entry. The code does
  not do this: \<^verbatim>\<open>autolux\<close> starts from \<open>gain_index = 0\<close> and \<open>it_index = 2\<close>, and lines 328
  and 329 look the latched settings up in the two lists and drop the positions. On a
  device at gain 2 and 800 ms with a reading of 5000, \<^verbatim>\<open>autolux\<close> reaches line 349 with
  the indices 0 and 2 while the registers hold the entries 3 and 5 of the lists. On the
  same device a first iteration of the low-light loop writes gain 1/4 over gain 2.
\<close>

theorem autolux_indices_not_latched:
  "(\<exists>m'. autolux_ranging (machine_at ALS_GAIN_2 ALS_800MS (\<lambda>_. 5000))
            = Some (Inr (0, 2, True, 5000), m')
        \<and> light_gain m' = gain_settings ! 3
        \<and> gain_settings ! 0 \<noteq> light_gain m'
        \<and> light_integration_time m' = integration_time_settings ! 5
        \<and> integration_time_settings ! 2 \<noteq> light_integration_time m')
   \<and> (\<exists>m1. low_step 0 2 (machine_at ALS_GAIN_2 ALS_800MS (\<lambda>_. 50)) = (Inr (1, 2, 50), m1)
        \<and> light_gain (machine_at ALS_GAIN_2 ALS_800MS (\<lambda>_. 50)) = ALS_GAIN_2
        \<and> light_gain m1 = ALS_GAIN_1_4
        \<and> gain_values ALS_GAIN_2 = Some 2
        \<and> gain_values ALS_GAIN_1_4 = Some (1 / 4))"
proof
  let ?m = "machine_at ALS_GAIN_2 ALS_800MS (\<lambda>_. 5000)"
  have ok: "bus_ok ?m" "it_ok ?m" by (simp_all add: integration_time_settings_def)
  have "100 < uint (feed ?m (n_reads ?m))" "uint (feed ?m (n_reads ?m)) \<le> 10000" by simp_all
  from autolux_ranging_mid[OF ok this] obtain m' where
    "autolux_ranging ?m = Some (Inr (0, 2, True, 5000), m')"
    "light_gain m' = ALS_GAIN_2" "light_integration_time m' = ALS_800MS"
    by auto
  then show "\<exists>m'. autolux_ranging ?m = Some (Inr (0, 2, True, 5000), m')
        \<and> light_gain m' = gain_settings ! 3
        \<and> gain_settings ! 0 \<noteq> light_gain m'
        \<and> light_integration_time m' = integration_time_settings ! 5
        \<and> integration_time_settings ! 2 \<noteq> light_integration_time m'"
    by (auto simp: gain_settings_def integration_time_settings_def ALS_defs)
next
  let ?m = "machine_at ALS_GAIN_2 ALS_800MS (\<lambda>_. 50)"
  have ok: "bus_ok ?m" "it_ok ?m" by (simp_all add: integration_time_settings_def)
  from low_step_gain[OF ok, of 0 2] obtain m1 where
    "low_step 0 2 ?m = (Inr (1, 2, 50), m1)" "light_gain m1 = ALS_GAIN_1_4"
    by (auto simp: gain_settings_def)
  then show "\<exists>m1. low_step 0 2 ?m = (Inr (1, 2, 50), m1)
        \<and> light_gain ?m = ALS_GAIN_2
        \<and> light_gain m1 = ALS_GAIN_1_4
        \<and> gain_values ALS_GAIN_2 = Some 2
        \<and> gain_values ALS_GAIN_1_4 = Some (1 / 4)"
    by (auto simp: gain_values_at)
qed



text \<open>
  C5. For every gain value \<open>g\<close> in \<open>{0.125, 0.25, 1, 2}\<close> and integration time \<open>t\<close> in
  \<open>{25, 50, 100, 200, 400, 800}\<close> currently latched, \<^verbatim>\<open>resolution()\<close> returns
  \<open>0.0042 * (800 / t) * (2 / g)\<close>, except that for \<open>g = 2\<close> and \<open>t = 800\<close> it returns
  the constant \<open>0.0042\<close> without evaluating the formula. The two sets are exactly the
  values of the two tables. That the formula is not evaluated shows in the register
  accesses: two at the reference point (the condition of line 275 alone), three or four
  otherwise.
\<close>

theorem resolution_formula:
  assumes "bus_ok m"
    and "gain_values (light_gain m) = Some g"
    and "integration_time_values (light_integration_time m) = Some t"
  shows "g \<in> {1 / 8, 1 / 4, 1, 2} \<and> t \<in> {25, 50, 100, 200, 400, 800}
     \<and> ran gain_values = {1 / 8, 1 / 4, 1, 2}
     \<and> ran integration_time_values = {25, 50, 100, 200, 400, 800}
     \<and> fst (resolution m) =
         Inr (if g = 2 \<and> t = 800 then 42 / 10000
              else 42 / 10000 * (800 / of_int t) * (2 / g))
     \<and> snd (resolution m) =
         m\<lparr>n_txn := n_txn m + (if g = 2 then if t = 800 then 2 else 4 else 3)\<rparr>"
  using gain_values_pos[OF assms(2)] integration_time_values_pos[OF assms(3)]
    ran_gain_values ran_integration_time_values
  by (simp only: resolution_ok[OF assms] fst_conv snd_conv simp_thms)

theorem resolution_formula_witness:
  "bus_ok (machine_at ALS_GAIN_1_8 ALS_100MS (\<lambda>_. 0))
   \<and> gain_values ALS_GAIN_1_8 = Some (1 / 8)
   \<and> integration_time_values ALS_100MS = Some 100
   \<and> fst (resolution (machine_at ALS_GAIN_1_8 ALS_100MS (\<lambda>_. 0))) =
       Inr (42 / 10000 * (800 / 100) * (2 / (1 / 8)))
   \<and> n_txn (snd (resolution (machine_at ALS_GAIN_1_8 ALS_100MS (\<lambda>_. 0)))) = 3
   \<and> gain_values ALS_GAIN_2 = Some 2
   \<and> integration_time_values ALS_800MS = Some 800
   \<and> fst (resolution (machine_at ALS_GAIN_2 ALS_800MS (\<lambda>_. 0))) = Inr (42 / 10000)
   \<and> n_txn (snd (resolution (machine_at ALS_GAIN_2 ALS_800MS (\<lambda>_. 0)))) = 2"
proof -
  have g1: "gain_values ALS_GAIN_1_8 = Some (1 / 8)"
    and g2: "gain_values ALS_GAIN_2 = Some 2"
    by (simp_all add: gain_values_def ALS_defs)
  have t1: "integration_time_values ALS_100MS = Some 100"
    and t2: "integration_time_values ALS_800MS = Some 800"
    by (simp_all add: integration_time_values_def ALS_defs)
  show ?thesis
    using g1 g2 t1 t2
      resolution_formula [of "machine_at ALS_GAIN_1_8 ALS_100MS (\<lambda>_. 0)" "1 / 8" 100]
      resolution_formula [of "machine_at ALS_GAIN_2 ALS_800MS (\<lambda>_. 0)" 2 800]
    by simp
qed

text \<open>
  C6. For every raw count in \<open>[0, 65535]\<close>, \<^verbatim>\<open>compute_lux(raw, false)\<close> is
  \<^verbatim>\<open>resolution() * raw\<close>, and \<^verbatim>\<open>compute_lux(raw, true)\<close> is the correction polynomial
  \<open>(((6.0135e-13 * l - 9.3924e-9) * l + 8.1488e-5) * l + 1.0023) * l\<close> at
  \<open>l = resolution() * raw\<close>.
\<close>

theorem compute_lux_formula:
  assumes "0 \<le> raw" and "raw \<le> 65535" and "resolution m = (Inr r, m')"
  shows "compute_lux raw False m = (Inr (r * of_int raw), m')
     \<and> compute_lux raw True m =
         (let l = r * of_int raw
          in (Inr ((((60135 / 10 ^ 17 * l - 93924 / 10 ^ 13) * l + 81488 / 10 ^ 9) * l
                     + 10023 / 10 ^ 4) * l), m'))"
  using assms(3) by (simp add: compute_lux_def bind_apply correction_def Let_def)

theorem compute_lux_formula_witness:
  "(0::int) \<le> 1000 \<and> (1000::int) \<le> 65535
   \<and> resolution (machine_at ALS_GAIN_2 ALS_800MS (\<lambda>_. 0)) =
       (Inr (42 / 10000), (machine_at ALS_GAIN_2 ALS_800MS (\<lambda>_. 0))\<lparr>n_txn := 2\<rparr>)
   \<and> fst (compute_lux 1000 False (machine_at ALS_GAIN_2 ALS_800MS (\<lambda>_. 0))) = Inr (42 / 10)
   \<and> fst (compute_lux 1000 True (machine_at ALS_GAIN_2 ALS_800MS (\<lambda>_. 0))) =
       Inr ((((60135 / 10 ^ 17 * (42 / 10) - 93924 / 10 ^ 13) * (42 / 10) + 81488 / 10 ^ 9)
               * (42 / 10) + 10023 / 10 ^ 4) * (42 / 10))"
proof -
  have r: "resolution (machine_at ALS_GAIN_2 ALS_800MS (\<lambda>_. 0)) =
       (Inr (42 / 10000), (machine_at ALS_GAIN_2 ALS_800MS (\<lambda>_. 0))\<lparr>n_txn := 2\<rparr>)"
    using resolution_ok [of "machine_at ALS_GAIN_2 ALS_800MS (\<lambda>_. 0)" 2 800]
    by (simp add: gain_values_def integration_time_values_def ALS_defs)
  show ?thesis
    using r compute_lux_formula [OF _ _ r, of 1000] by (simp add: Let_def)
qed

text \<open>
  C7. For every call of \<^verbatim>\<open>_read_als_wait\<close>: if the time elapsed since \<open>last_read\<close> is
  less than twice the integration time, the call sleeps for exactly the remaining
  difference (in seconds) before it reads the light register; in all cases
  \<open>last_read\<close> becomes the clock's value after the wait and before the reading is
  returned. So \<open>last_read\<close> afterwards is at least the time of the call, and at least
  twice the integration time after the previous \<open>last_read\<close>. The log has the sleep
  before the read.
\<close>

theorem read_als_wait_timing:
  assumes "bus_ok m" and "integration_time_values (light_integration_time m) = Some t"
  shows "(let t0 = now m + rat_of_nat (elapse m (n_clock m)) / 1000;
              time_waited = t0 - last_read m;
              als = uint (feed m (n_reads m));
              m' = snd (read_als_wait m)
          in fst (read_als_wait m) = Inr als
           \<and> trace m' =
               ReadLight als #
                 (if time_waited < of_int (2 * t)
                  then [Sleep ((of_int (2 * t) - time_waited) / 1000)] else []) @ trace m
           \<and> last_read m' =
               (if time_waited < of_int (2 * t) then last_read m + of_int (2 * t) else t0)
                 + rat_of_nat (elapse m (Suc (n_clock m))) / 1000
           \<and> last_read m' = now m'
           \<and> now m \<le> last_read m'
           \<and> last_read m + of_int (2 * t) \<le> last_read m')"
proof -
  have e0: "0 \<le> rat_of_nat (elapse m (n_clock m)) / 1000"
    and e1: "0 \<le> rat_of_nat (elapse m (Suc (n_clock m))) / 1000"
    by simp_all
  show ?thesis
    unfolding read_als_wait_ok[OF assms] Let_def fst_conv snd_conv
    using e0 e1 by (simp del: of_nat_0_le_iff zero_le_divide_iff)
qed

theorem read_als_wait_timing_witness:
  "bus_ok ((machine_at ALS_GAIN_1_8 ALS_100MS (\<lambda>_. 7))\<lparr>now := 50\<rparr>)
   \<and> integration_time_values
        (light_integration_time ((machine_at ALS_GAIN_1_8 ALS_100MS (\<lambda>_. 7))\<lparr>now := 50\<rparr>))
       = Some 100
   \<and> fst (read_als_wait ((machine_at ALS_GAIN_1_8 ALS_100MS (\<lambda>_. 7))\<lparr>now := 50\<rparr>)) = Inr 7
   \<and> trace (snd (read_als_wait ((machine_at ALS_GAIN_1_8 ALS_100MS (\<lambda>_. 7))\<lparr>now := 50\<rparr>)))
       = [ReadLight 7, Sleep (3 / 20)]
   \<and> last_read (snd (read_als_wait ((machine_at ALS_GAIN_1_8 ALS_100MS (\<lambda>_. 7))\<lparr>now := 50\<rparr>)))
       = 200
   \<and> trace (snd (read_als_wait ((machine_at ALS_GAIN_1_8 ALS_100MS (\<lambda>_. 7))\<lparr>now := 500\<rparr>)))
       = [ReadLight 7]
   \<and> last_read (snd (read_als_wait ((machine_at ALS_GAIN_1_8 ALS_100MS (\<lambda>_. 7))\<lparr>now := 500\<rparr>)))
       = 500"
  using
    read_als_wait_timing [of "(machine_at ALS_GAIN_1_8 ALS_100MS (\<lambda>_. 7))\<lparr>now := 50\<rparr>" 100]
    read_als_wait_timing [of "(machine_at ALS_GAIN_1_8 ALS_100MS (\<lambda>_. 7))\<lparr>now := 500\<rparr>" 100]
  by (simp add: Let_def integration_time_values_at)

text \<open>
  C8. For every requested wait time \<open>w\<close> and latched integration time \<open>t\<close> in
  milliseconds, \<^verbatim>\<open>wait_autolux(w)\<close> returns after one sleep of \<open>max(w, t / 1000)\<close>
  seconds: never less than the integration time, whatever \<open>w\<close> is.
\<close>

theorem wait_autolux_sleeps:
  assumes "bus_ok m" and "integration_time_values (light_integration_time m) = Some t"
  shows "fst (wait_autolux w m) = Inr ()
     \<and> trace (snd (wait_autolux w m)) = Sleep (max w (of_int t / 1000)) # trace m
     \<and> now (snd (wait_autolux w m)) = now m + max w (of_int t / 1000) * 1000
     \<and> of_int t / 1000 \<le> max w (of_int t / 1000)
     \<and> now m + of_int t \<le> now (snd (wait_autolux w m))"
proof -
  have "now m + of_int t \<le> now m + max w (of_int t / 1000) * 1000"
    by (simp add: max_def)
  then show ?thesis
    unfolding wait_autolux_ok[OF assms] fst_conv snd_conv
    by (simp add: max.commute)
qed

theorem wait_autolux_sleeps_witness:
  "bus_ok (machine_at ALS_GAIN_1_8 ALS_400MS (\<lambda>_. 0))
   \<and> integration_time_values ALS_400MS = Some 400
   \<and> trace (snd (wait_autolux 0 (machine_at ALS_GAIN_1_8 ALS_400MS (\<lambda>_. 0)))) = [Sleep (2 / 5)]
   \<and> integration_time_values ALS_25MS = Some 25
   \<and> trace (snd (wait_autolux 1 (machine_at ALS_GAIN_1_8 ALS_25MS (\<lambda>_. 0)))) = [Sleep 1]"
  using wait_autolux_sleeps [of "machine_at ALS_GAIN_1_8 ALS_400MS (\<lambda>_. 0)" 400 0]
    wait_autolux_sleeps [of "machine_at ALS_GAIN_1_8 ALS_25MS (\<lambda>_. 0)" 25 1]
  by (simp add: integration_time_values_at)

text \<open>
  C9. During construction the sequence that sets the lowest gain and enables the sensor
  is attempted up to three times, and retried only after an \<^verbatim>\<open>OSError\<close>. Three such
  failures make the constructor raise \<^verbatim>\<open>RuntimeError\<close>: no instance is produced. Any
  other exception leaves the constructor at once. After the first attempt that succeeds
  there is no further attempt: the clock is read once and \<open>last_read\<close> becomes the value
  read (the clock before the call plus the time that has passed by itself), with no
  further register access and nothing else changed.
\<close>

theorem init_retries:
  "(enable_sequence m = (Inr (), m1) \<longrightarrow> init m = seed_last_read m1)
   \<and> (enable_sequence m = (Inl OSError, m1) \<and> enable_sequence m1 = (Inr (), m2)
        \<longrightarrow> init m = seed_last_read m2)
   \<and> (enable_sequence m = (Inl OSError, m1) \<and> enable_sequence m1 = (Inl OSError, m2)
        \<and> enable_sequence m2 = (Inr (), m3)
        \<longrightarrow> init m = seed_last_read m3)
   \<and> (enable_sequence m = (Inl OSError, m1) \<and> enable_sequence m1 = (Inl OSError, m2)
        \<and> enable_sequence m2 = (Inl OSError, m3)
        \<longrightarrow> init m = (Inl RuntimeError, m3))
   \<and> (e \<noteq> OSError \<and> enable_sequence m = (Inl e, m1) \<longrightarrow> init m = (Inl e, m1))
   \<and> (e \<noteq> OSError \<and> enable_sequence m = (Inl OSError, m1) \<and> enable_sequence m1 = (Inl e, m2)
        \<longrightarrow> init m = (Inl e, m2))
   \<and> (e \<noteq> OSError \<and> enable_sequence m = (Inl OSError, m1)
        \<and> enable_sequence m1 = (Inl OSError, m2) \<and> enable_sequence m2 = (Inl e, m3)
        \<longrightarrow> init m = (Inl e, m3))
   \<and> (enable_sequence m = (Inr (), m1)
        \<longrightarrow> light_gain m1 = ALS_GAIN_1_8 \<and> \<not> light_shutdown m1 \<and> n_txn m1 = n_txn m + 2)
   \<and> fst (seed_last_read m') = Inr ()
   \<and> last_read (snd (seed_last_read m')) = now (snd (seed_last_read m'))
   \<and> n_txn (snd (seed_last_read m')) = n_txn m'
   \<and> light_gain (snd (seed_last_read m')) = light_gain m'
   \<and> light_shutdown (snd (seed_last_read m')) = light_shutdown m'
   \<and> seed_last_read m' =
       (Inr (), m'\<lparr>now := now m' + rat_of_nat (elapse m' (n_clock m')) / 1000,
                   n_clock := Suc (n_clock m'),
                   last_read := now m' + rat_of_nat (elapse m' (n_clock m')) / 1000\<rparr>)
   \<and> now m' \<le> last_read (snd (seed_last_read m'))"
proof -
  show ?thesis
    by (intro conjI impI seed_last_read_effect seed_last_read_run seed_last_read_later
        enable_sequence_ok[THEN conjunct1]
        enable_sequence_ok[THEN conjunct2, THEN conjunct1]
        enable_sequence_ok[THEN conjunct2, THEN conjunct2])
      (auto simp: init_apply init_attempts_3 split: exn.splits)
qed

theorem init_retries_witness:
  "init (failing_first 3 OSError (machine_at ALS_GAIN_2 ALS_100MS (\<lambda>_. 0))) =
     (Inl RuntimeError, (failing_first 3 OSError (machine_at ALS_GAIN_2 ALS_100MS (\<lambda>_. 0)))\<lparr>n_txn := 3\<rparr>)
   \<and> fst (init (failing_first 2 OSError (machine_at ALS_GAIN_2 ALS_100MS (\<lambda>_. 0)))) = Inr ()
   \<and> n_txn (snd (init (failing_first 2 OSError (machine_at ALS_GAIN_2 ALS_100MS (\<lambda>_. 0))))) = 4
   \<and> light_gain (snd (init (failing_first 2 OSError (machine_at ALS_GAIN_2 ALS_100MS (\<lambda>_. 0)))))
       = ALS_GAIN_1_8
   \<and> init (failing_first 1 OtherError (machine_at ALS_GAIN_2 ALS_100MS (\<lambda>_. 0))) =
       (Inl OtherError,
        (failing_first 1 OtherError (machine_at ALS_GAIN_2 ALS_100MS (\<lambda>_. 0)))\<lparr>n_txn := 1\<rparr>)
   \<and> init ((machine_at ALS_GAIN_2 ALS_100MS (\<lambda>_. 0))\<lparr>now := 50, elapse := (\<lambda>_. 2000),
                                                            last_read := 7\<rparr>) =
       (Inr (),
        (machine_at ALS_GAIN_2 ALS_100MS (\<lambda>_. 0))
          \<lparr>now := 52, elapse := (\<lambda>_. 2000), last_read := 52, n_txn := 2, n_clock := 1,
           light_gain := ALS_GAIN_1_8, light_shutdown := False\<rparr>)
   \<and> last_read (snd (init ((failing_first 2 OSError (machine_at ALS_GAIN_2 ALS_100MS (\<lambda>_. 0)))
                                \<lparr>now := 50, elapse := (\<lambda>_. 2000), last_read := 7\<rparr>))) = 52"
proof -
  let ?m = "machine_at ALS_GAIN_2 ALS_100MS (\<lambda>_. 0)"
  let ?a = "failing_first 3 OSError ?m"
  let ?b = "failing_first 2 OSError ?m"
  let ?c = "failing_first 1 OtherError ?m"
  let ?b2 = "?b\<lparr>n_txn := 2\<rparr>"
  let ?b4 = "?b\<lparr>n_txn := 4, light_gain := ALS_GAIN_1_8, light_shutdown := False\<rparr>"
  have a: "init ?a = (Inl RuntimeError, ?a\<lparr>n_txn := 3\<rparr>)"
    using init_retries [where m = ?a and ?m1.0 = "?a\<lparr>n_txn := 1\<rparr>"
        and ?m2.0 = "?a\<lparr>n_txn := 2\<rparr>" and ?m3.0 = "?a\<lparr>n_txn := 3\<rparr>"]
    by (simp add: enable_sequence_run failing_first_def)
  have b: "init ?b = seed_last_read ?b4"
    using init_retries [where m = ?b and ?m1.0 = "?b\<lparr>n_txn := 1\<rparr>"
        and ?m2.0 = ?b2 and ?m3.0 = ?b4]
    by (simp add: enable_sequence_run failing_first_def)
  have b': "fst (seed_last_read ?b4) = Inr ()" "n_txn (snd (seed_last_read ?b4)) = 4"
    "light_gain (snd (seed_last_read ?b4)) = ALS_GAIN_1_8"
    using init_retries [where m' = ?b4] by simp_all
  have c: "init ?c = (Inl OtherError, ?c\<lparr>n_txn := 1\<rparr>)"
    using init_retries [where m = ?c and e = OtherError and ?m1.0 = "?c\<lparr>n_txn := 1\<rparr>"]
    by (simp add: enable_sequence_run failing_first_def)
  let ?d = "?m\<lparr>now := 50, elapse := (\<lambda>_. 2000), last_read := 7\<rparr>"
  let ?d2 = "?d\<lparr>n_txn := 2, light_gain := ALS_GAIN_1_8, light_shutdown := False\<rparr>"
  let ?e = "?b\<lparr>now := 50, elapse := (\<lambda>_. 2000), last_read := 7\<rparr>"
  let ?e4 = "?e\<lparr>n_txn := 4, light_gain := ALS_GAIN_1_8, light_shutdown := False\<rparr>"
  have d: "init ?d = seed_last_read ?d2"
    using init_retries [where m = ?d and ?m1.0 = ?d2]
    by (simp add: enable_sequence_run)
  have d': "seed_last_read ?d2 =
      (Inr (), ?m\<lparr>now := 52, elapse := (\<lambda>_. 2000), last_read := 52, n_txn := 2, n_clock := 1,
                 light_gain := ALS_GAIN_1_8, light_shutdown := False\<rparr>)"
    using init_retries [where m' = ?d2] by (simp add: machine_at_def)
  have e: "init ?e = seed_last_read ?e4"
    using init_retries [where m = ?e and ?m1.0 = "?e\<lparr>n_txn := 1\<rparr>"
        and ?m2.0 = "?e\<lparr>n_txn := 2\<rparr>" and ?m3.0 = ?e4]
    by (simp add: enable_sequence_run failing_first_def)
  have e': "last_read (snd (seed_last_read ?e4)) = 52"
    using init_retries [where m' = ?e4] by (simp add: failing_first_def)
  from a b b' c d d' e e' show ?thesis by simp
qed

text \<open>
  C10. The two lookups are partial over the raw register fields. Every 2-bit gain code
  is a key of \<^verbatim>\<open>gain_values\<close>. The keys of \<^verbatim>\<open>integration_time_values\<close> are the six
  codes \<open>0xC, 0x8, 0x0, 0x1, 0x2, 0x3\<close>; at each of the ten other 4-bit codes
  \<^verbatim>\<open>integration_time_value()\<close> raises \<^verbatim>\<open>KeyError\<close> (and \<^verbatim>\<open>autolux\<close> already fails at
  line 329, with the \<^verbatim>\<open>ValueError\<close> of \<^verbatim>\<open>list.index\<close>). So \<^verbatim>\<open>resolution\<close>, \<^verbatim>\<open>lux\<close>,
  \<^verbatim>\<open>compute_lux\<close>, \<^verbatim>\<open>autolux\<close>, \<^verbatim>\<open>_read_als_wait\<close> and \<^verbatim>\<open>wait_autolux\<close> return a
  value only if the field holds one of the six codes; and on a bus without faults
  they do return one then.
\<close>

theorem integration_time_lookup_partial:
  "(\<forall>c. gain_values c \<noteq> None)
   \<and> dom integration_time_values = {0xC, 0x8, 0x0, 0x1, 0x2, 0x3}
   \<and> card {c. integration_time_values c = None} = 10
   \<and> (bus_ok m \<and> light_integration_time m \<notin> {0xC, 0x8, 0x0, 0x1, 0x2, 0x3}
        \<longrightarrow> fst (integration_time_value m) = Inl KeyError
          \<and> autolux m = Some (Inl ValueError, m\<lparr>n_txn := Suc (Suc (n_txn m))\<rparr>))
   \<and> (integration_time_value m = (Inr t, m1) \<or> resolution m = (Inr r, m2)
        \<or> lux m = (Inr l, m3) \<or> compute_lux als uc m = (Inr v, m4)
        \<or> autolux m = Some (Inr a, m5) \<or> read_als_wait m = (Inr x, m6)
        \<or> wait_autolux w m = (Inr u, m7)
        \<longrightarrow> light_integration_time m \<in> {0xC, 0x8, 0x0, 0x1, 0x2, 0x3})
   \<and> (bus_ok m \<and> light_integration_time m \<in> {0xC, 0x8, 0x0, 0x1, 0x2, 0x3}
        \<longrightarrow> (\<exists>t' m'. integration_time_value m = (Inr t', m'))
          \<and> (\<exists>r' m'. resolution m = (Inr r', m'))
          \<and> (\<exists>l' m'. lux m = (Inr l', m'))
          \<and> (\<exists>v' m'. compute_lux als uc m = (Inr v', m'))
          \<and> (\<exists>a' m'. autolux m = Some (Inr a', m'))
          \<and> (\<exists>x' m'. read_als_wait m = (Inr x', m'))
          \<and> (\<exists>m'. wait_autolux w m = (Inr (), m')))"
proof -
  have bad: "fst (integration_time_value m) = Inl KeyError
      \<and> autolux m = Some (Inl ValueError, m\<lparr>n_txn := Suc (Suc (n_txn m))\<rparr>)"
    if "bus_ok m" "\<not> it_ok m"
  proof -
    from that(2) have "integration_time_values (light_integration_time m) = None"
      by (simp add: it_ok_dom dom_def)
    from integration_time_value_bad[OF that(1) this] autolux_bad_code[OF that]
    show ?thesis by simp
  qed
  have need: "it_ok m"
    if "integration_time_value m = (Inr t, m1) \<or> resolution m = (Inr r, m2)
        \<or> lux m = (Inr l, m3) \<or> compute_lux als uc m = (Inr v, m4)
        \<or> autolux m = Some (Inr a, m5) \<or> read_als_wait m = (Inr x, m6)
        \<or> wait_autolux w m = (Inr u, m7)"
    using that
    by (elim disjE)
      (erule integration_time_value_it_ok resolution_it_ok lux_it_ok compute_lux_it_ok
        autolux_it_ok read_als_wait_it_ok wait_autolux_it_ok)+
  have enough: "(\<exists>t' m'. integration_time_value m = (Inr t', m'))
          \<and> (\<exists>r' m'. resolution m = (Inr r', m'))
          \<and> (\<exists>l' m'. lux m = (Inr l', m'))
          \<and> (\<exists>v' m'. compute_lux als uc m = (Inr v', m'))
          \<and> (\<exists>a' m'. autolux m = Some (Inr a', m'))
          \<and> (\<exists>x' m'. read_als_wait m = (Inr x', m'))
          \<and> (\<exists>m'. wait_autolux w m = (Inr (), m'))"
    if ok: "bus_ok m" "it_ok m"
  proof -
    from it_ok_lookup[OF ok(2)] obtain t0
      where t0: "integration_time_values (light_integration_time m) = Some t0" ..
    have 1: "\<exists>t' m'. integration_time_value m = (Inr t', m')"
      using integration_time_value_ok[OF ok(1) t0] by blast
    have 2: "\<exists>r' m'. resolution m = (Inr r', m')"
      using resolution_returns[OF ok] by blast
    have 3: "\<exists>l' m'. lux m = (Inr l', m')" by (rule lux_returns[OF ok])
    have 4: "\<exists>v' m'. compute_lux als uc m = (Inr v', m')"
      using compute_lux_returns[OF ok, of als uc] by blast
    have 5: "\<exists>a' m'. autolux m = Some (Inr a', m')" by (rule autolux_returns[OF ok])
    have 6: "\<exists>x' m'. read_als_wait m = (Inr x', m')"
      using read_als_wait_frame[OF ok] by blast
    have 7: "\<exists>m'. wait_autolux w m = (Inr (), m')"
      using wait_autolux_ok[OF ok(1) t0] by blast
    from 1 2 3 4 5 6 7 show ?thesis by blast
  qed
  from gain_total it_dom card_undefined bad need enough
  show ?thesis unfolding it_ok_codes by blast
qed

theorem integration_time_lookup_partial_witness:
  "bus_ok (machine_at ALS_GAIN_1 0x4 (\<lambda>_. 0))
   \<and> fst (integration_time_value (machine_at ALS_GAIN_1 0x4 (\<lambda>_. 0))) = Inl KeyError
   \<and> fst (the (autolux (machine_at ALS_GAIN_1 0x4 (\<lambda>_. 0)))) = Inl ValueError
   \<and> bus_ok (machine_at ALS_GAIN_1 ALS_100MS (\<lambda>_. 0))
   \<and> (\<exists>r m'. resolution (machine_at ALS_GAIN_1 ALS_100MS (\<lambda>_. 0)) = (Inr r, m'))
   \<and> (\<exists>a m'. autolux (machine_at ALS_GAIN_1 ALS_100MS (\<lambda>_. 0)) = Some (Inr a, m'))
   \<and> (\<exists>x m'. read_als_wait (machine_at ALS_GAIN_1 ALS_100MS (\<lambda>_. 0)) = (Inr x, m'))"
  using integration_time_lookup_partial [where m = "machine_at ALS_GAIN_1 0x4 (\<lambda>_. 0)"]
    integration_time_lookup_partial [where m = "machine_at ALS_GAIN_1 ALS_100MS (\<lambda>_. 0)"]
  by (simp add: ALS_defs)

end
